theory Spec2Isabelle
  imports Main "HOL-Library.Multiset"
begin

section \<open>JavaScript values and string primitives\<close>

text \<open>
  The analysis engine of \<^verbatim>\<open>server.js\<close> works on plain JavaScript objects. The values
  that reach it from a parsed spreadsheet row are \<^verbatim>\<open>undefined\<close> (a missing property),
  \<^verbatim>\<open>null\<close>, numbers and strings.

  A number \<open>JNum n\<close> is the integer \<open>n\<close>. JavaScript numbers are doubles: every integer of
  magnitude up to \<open>2 ^ 53\<close> is one, and sums and differences of integers are exact as long as
  they stay in that range; the statements about sums and orders of device counts carry that
  bound.

  A string is a list of characters with the codes \<open>0\<close> to \<open>255\<close>, read as the UTF-16 code
  units of the Latin-1 range; the builtins \<^verbatim>\<open>trim\<close> and \<^verbatim>\<open>toLowerCase\<close> are modelled as they
  act on such strings. A name with a code unit above \<open>255\<close> is not a value of this type.
\<close>

datatype jsval = JUndefined | JNull | JNum int | JStr string

datatype error = TypeError | RuleStoreError

text \<open>White space and line terminators removed by \<^verbatim>\<open>String.prototype.trim\<close>, among the
  codes below 256: TAB, LF, VT, FF, CR (codes 9 to 13), SPACE (32) and NO-BREAK SPACE (160).\<close>

definition is_white_space :: "char \<Rightarrow> bool" where
  "is_white_space c =
     (let n = (of_char c :: nat) in (9 \<le> n \<and> n \<le> 13) \<or> n = 32 \<or> n = 160)"

definition trim :: "string \<Rightarrow> string" where
  "trim s = rev (dropWhile is_white_space (rev (dropWhile is_white_space s)))"

text \<open>\<^verbatim>\<open>String.prototype.toLowerCase\<close>: the upper-case letters below 256 are \<^verbatim>\<open>A\<close> to \<^verbatim>\<open>Z\<close>
  (65 to 90) and the accented capitals 192 to 222 other than the multiplication sign 215;
  each has its lower-case letter 32 places on.\<close>

definition lower_char :: "char \<Rightarrow> char" where
  "lower_char c =
     (let n = (of_char c :: nat)
      in if (65 \<le> n \<and> n \<le> 90) \<or> (192 \<le> n \<and> n \<le> 222 \<and> n \<noteq> 215)
         then char_of (n + 32) else c)"

definition toLowerCase :: "string \<Rightarrow> string" where
  "toLowerCase s = map lower_char s"

text \<open>\<^verbatim>\<open>s.startsWith(p)\<close>, \<^verbatim>\<open>s.endsWith(p)\<close> and \<^verbatim>\<open>s.includes(p)\<close>.\<close>

fun startsWith :: "string \<Rightarrow> string \<Rightarrow> bool" where
  "startsWith s [] = True"
| "startsWith [] (p # ps) = False"
| "startsWith (c # s) (p # ps) = (c = p \<and> startsWith s ps)"

definition endsWith :: "string \<Rightarrow> string \<Rightarrow> bool" where
  "endsWith s p = startsWith (rev s) (rev p)"

fun js_includes :: "string \<Rightarrow> string \<Rightarrow> bool" where
  "js_includes [] p = (p = [])"
| "js_includes (c # s) p = (startsWith (c # s) p \<or> js_includes s p)"

text \<open>
  \<^verbatim>\<open>new RegExp(pattern, flags)\<close> is a builtin of the platform: it either throws a
  \<^verbatim>\<open>SyntaxError\<close> (\<open>None\<close>) or yields a compiled expression whose \<^verbatim>\<open>test\<close> method
  is a predicate on strings. The engine is a parameter of the model; it takes the pattern
  and the flags.
\<close>

type_synonym regexp_engine = "string \<Rightarrow> string \<Rightarrow> (string \<Rightarrow> bool) option"

section \<open>Rule sets\<close>

text \<open>Rows of the tables \<^verbatim>\<open>exclusion_rules\<close> and \<^verbatim>\<open>software_mappings\<close>. A column that
  the schema allows to be \<^verbatim>\<open>NULL\<close> is an \<open>option\<close>.\<close>

record exclusion_rule =
  pattern_type :: string
  pattern_value :: string
  category :: string
  reason :: "string option"

record mapping_rule =
  mapping_pattern_type :: string
  original_pattern :: string
  canonical_name :: string
  mapping_category :: "string option"
  deployment_type :: "string option"
  description :: "string option"

section \<open>The exclusion filter and the mapping resolver\<close>

text \<open>
  The body of the \<^verbatim>\<open>switch\<close> of \<^verbatim>\<open>shouldExclude\<close>: the value of \<^verbatim>\<open>matches\<close> for one rule,
  and what the rule writes with \<^verbatim>\<open>console.warn\<close>. A pattern type that no \<^verbatim>\<open>case\<close>
  names leaves \<^verbatim>\<open>matches\<close> at its initial value \<^verbatim>\<open>false\<close>.
\<close>

definition exclusion_matches ::
  "regexp_engine \<Rightarrow> exclusion_rule \<Rightarrow> string \<Rightarrow> bool \<times> string list" where
  "exclusion_matches RegExp rule nm =
     (let pattern = pattern_value rule in
      if pattern_type rule = ''exact'' then (toLowerCase nm = toLowerCase pattern, [])
      else if pattern_type rule = ''contains'' then
        (js_includes (toLowerCase nm) (toLowerCase pattern), [])
      else if pattern_type rule = ''startswith'' then
        (startsWith (toLowerCase nm) (toLowerCase pattern), [])
      else if pattern_type rule = ''endswith'' then
        (endsWith (toLowerCase nm) (toLowerCase pattern), [])
      else if pattern_type rule = ''regex'' then
        (case RegExp pattern ''i'' of
           None \<Rightarrow> (False, [''Invalid regex pattern: '' @ pattern])
         | Some regex \<Rightarrow> (regex nm, []))
      else (False, []))"

text \<open>The object that \<^verbatim>\<open>shouldExclude\<close> returns: \<^verbatim>\<open>{ excluded: true, rule }\<close> or
  \<^verbatim>\<open>{ excluded: false }\<close>.\<close>

datatype exclusion_check = Excluded exclusion_rule | NotExcluded

text \<open>The loop of \<^verbatim>\<open>shouldExclude\<close> over the rules in their order, on the trimmed name.\<close>

fun exclusion_scan ::
  "regexp_engine \<Rightarrow> exclusion_rule list \<Rightarrow> string \<Rightarrow> exclusion_check \<times> string list" where
  "exclusion_scan RegExp [] nm = (NotExcluded, [])"
| "exclusion_scan RegExp (rule # rules) nm =
     (case exclusion_matches RegExp rule nm of
        (True, w) \<Rightarrow> (Excluded rule, w)
      | (False, w) \<Rightarrow>
          (case exclusion_scan RegExp rules nm of (res, ws) \<Rightarrow> (res, w @ ws)))"

definition shouldExclude ::
  "regexp_engine \<Rightarrow> exclusion_rule list \<Rightarrow> string \<Rightarrow> exclusion_check \<times> string list" where
  "shouldExclude RegExp exclusionRules softwareName =
     exclusion_scan RegExp exclusionRules (trim softwareName)"

text \<open>The \<^verbatim>\<open>switch\<close> of \<^verbatim>\<open>findMapping\<close> has no \<^verbatim>\<open>case 'endswith'\<close>.\<close>

definition mapping_matches ::
  "regexp_engine \<Rightarrow> mapping_rule \<Rightarrow> string \<Rightarrow> bool \<times> string list" where
  "mapping_matches RegExp rule nm =
     (let pattern = original_pattern rule in
      if mapping_pattern_type rule = ''exact'' then (toLowerCase nm = toLowerCase pattern, [])
      else if mapping_pattern_type rule = ''contains'' then
        (js_includes (toLowerCase nm) (toLowerCase pattern), [])
      else if mapping_pattern_type rule = ''startswith'' then
        (startsWith (toLowerCase nm) (toLowerCase pattern), [])
      else if mapping_pattern_type rule = ''regex'' then
        (case RegExp pattern ''i'' of
           None \<Rightarrow> (False, [''Invalid regex pattern: '' @ pattern])
         | Some regex \<Rightarrow> (regex nm, []))
      else (False, []))"

fun mapping_scan ::
  "regexp_engine \<Rightarrow> mapping_rule list \<Rightarrow> string \<Rightarrow> mapping_rule option \<times> string list" where
  "mapping_scan RegExp [] nm = (None, [])"
| "mapping_scan RegExp (rule # rules) nm =
     (case mapping_matches RegExp rule nm of
        (True, w) \<Rightarrow> (Some rule, w)
      | (False, w) \<Rightarrow>
          (case mapping_scan RegExp rules nm of (res, ws) \<Rightarrow> (res, w @ ws)))"

definition findMapping ::
  "regexp_engine \<Rightarrow> mapping_rule list \<Rightarrow> string \<Rightarrow> mapping_rule option \<times> string list" where
  "findMapping RegExp mappingRules softwareName =
     mapping_scan RegExp mappingRules (trim softwareName)"

section \<open>The analysis run\<close>

text \<open>
  An entry of \<^verbatim>\<open>softwareList\<close>, and the objects pushed to the \<^verbatim>\<open>unmapped\<close> list and to an
  aggregate's \<^verbatim>\<open>originalEntries\<close>, which have the same three properties.
\<close>

record inventory_entry =
  name :: jsval
  publisher :: jsval
  deviceCount :: jsval

record excluded_entry =
  excluded_name :: string
  excluded_reason :: string
  ruleReason :: "string option"

record aggregate =
  canonicalName :: string
  agg_category :: string
  deploymentType :: string
  agg_description :: string
  originalEntries :: "inventory_entry list"

text \<open>\<^verbatim>\<open>results.included\<close> is a \<^verbatim>\<open>Map\<close>: keys are kept in insertion order.\<close>

record results =
  included :: "(string \<times> aggregate) list"
  excluded :: "excluded_entry list"
  unmapped :: "inventory_entry list"

definition map_has :: "(string \<times> 'a) list \<Rightarrow> string \<Rightarrow> bool" where
  "map_has m k = (map_of m k \<noteq> None)"

definition map_get :: "(string \<times> 'a) list \<Rightarrow> string \<Rightarrow> 'a option" where
  "map_get m k = map_of m k"

definition map_modify :: "(string \<times> 'a) list \<Rightarrow> string \<Rightarrow> ('a \<Rightarrow> 'a) \<Rightarrow> (string \<times> 'a) list" where
  "map_modify m k f = map (\<lambda>(k', v). if k' = k then (k', f v) else (k', v)) m"

text \<open>\<^verbatim>\<open>m.set(k, v)\<close>: a new key goes last, an existing key keeps its place.\<close>

definition map_set :: "(string \<times> 'a) list \<Rightarrow> string \<Rightarrow> 'a \<Rightarrow> (string \<times> 'a) list" where
  "map_set m k v = (if map_has m k then map_modify m k (\<lambda>_. v) else m @ [(k, v)])"

definition map_values :: "(string \<times> 'a) list \<Rightarrow> 'a list" where
  "map_values m = map snd m"

text \<open>\<^verbatim>\<open>x || d\<close> on a nullable string: \<^verbatim>\<open>null\<close> and \<^verbatim>\<open>''\<close> are falsy.\<close>

definition or_default :: "string option \<Rightarrow> string \<Rightarrow> string" where
  "or_default x d = (case x of None \<Rightarrow> d | Some s \<Rightarrow> if s = [] then d else s)"

text \<open>
  \<^verbatim>\<open>item.name?.trim()\<close>: \<^verbatim>\<open>undefined\<close> for a missing or \<^verbatim>\<open>null\<close> name, the trimmed string
  for a string, and a \<^verbatim>\<open>TypeError\<close> for a number, which has no method \<^verbatim>\<open>trim\<close>.
\<close>

definition optional_trim :: "jsval \<Rightarrow> error + string option" where
  "optional_trim v =
     (case v of
        JUndefined \<Rightarrow> Inr None
      | JNull \<Rightarrow> Inr None
      | JNum n \<Rightarrow> Inl TypeError
      | JStr s \<Rightarrow> Inr (Some (trim s)))"

definition empty_results :: results where
  "empty_results = \<lparr>included = [], excluded = [], unmapped = []\<rparr>"

text \<open>
  One iteration of the loop of \<^verbatim>\<open>analyze\<close>, on the results so far and the lines written
  to the console so far.
\<close>

definition analyze_item ::
  "regexp_engine \<Rightarrow> exclusion_rule list \<Rightarrow> mapping_rule list \<Rightarrow>
   results \<times> string list \<Rightarrow> inventory_entry \<Rightarrow> error + results \<times> string list" where
  "analyze_item RegExp exclusionRules mappingRules st item =
     (case st of (res, console) \<Rightarrow>
      (case optional_trim (name item) of
         Inl e \<Rightarrow> Inl e
       | Inr None \<Rightarrow> Inr (res, console)
       | Inr (Some nm) \<Rightarrow>
           if nm = [] then Inr (res, console)
           else
             (case shouldExclude RegExp exclusionRules nm of
                (Excluded rule, w) \<Rightarrow>
                  Inr (res\<lparr>excluded := excluded res @
                         [\<lparr>excluded_name = nm, excluded_reason = category rule,
                           ruleReason = reason rule\<rparr>]\<rparr>,
                       console @ w)
              | (NotExcluded, w) \<Rightarrow>
                  (case findMapping RegExp mappingRules nm of
                     (Some mapping, w') \<Rightarrow>
                       (let cn = canonical_name mapping;
                            inc = (if \<not> map_has (included res) cn
                                   then map_set (included res) cn
                                     \<lparr>canonicalName = cn,
                                      agg_category = or_default (mapping_category mapping) ''Uncategorized'',
                                      deploymentType = or_default (deployment_type mapping) ''Desktop'',
                                      agg_description = or_default (description mapping) [],
                                      originalEntries = []\<rparr>
                                   else included res);
                            inc' = map_modify inc cn
                                     (\<lambda>a. a\<lparr>originalEntries := originalEntries a @
                                        [\<lparr>name = JStr nm, publisher = publisher item,
                                          deviceCount = deviceCount item\<rparr>]\<rparr>)
                        in Inr (res\<lparr>included := inc'\<rparr>, console @ w @ w'))
                   | (None, w') \<Rightarrow>
                       Inr (res\<lparr>unmapped := unmapped res @
                              [\<lparr>name = JStr nm, publisher = publisher item,
                                deviceCount = deviceCount item\<rparr>]\<rparr>,
                            console @ w @ w')))))"

fun analyze_loop ::
  "regexp_engine \<Rightarrow> exclusion_rule list \<Rightarrow> mapping_rule list \<Rightarrow>
   results \<times> string list \<Rightarrow> inventory_entry list \<Rightarrow> error + results \<times> string list" where
  "analyze_loop RegExp exclusionRules mappingRules st [] = Inr st"
| "analyze_loop RegExp exclusionRules mappingRules st (item # items) =
     (case analyze_item RegExp exclusionRules mappingRules st item of
        Inl e \<Rightarrow> Inl e
      | Inr st' \<Rightarrow> analyze_loop RegExp exclusionRules mappingRules st' items)"

text \<open>
  \<^verbatim>\<open>loadRules\<close> reads the active rules of both tables in the order of their ids; the two
  queries either deliver the two lists or fail (\<open>None\<close>), and the failure propagates.
\<close>

type_synonym rule_store = "(exclusion_rule list \<times> mapping_rule list) option"

definition analyze ::
  "regexp_engine \<Rightarrow> rule_store \<Rightarrow> inventory_entry list \<Rightarrow> error + results \<times> string list" where
  "analyze RegExp store softwareList =
     (case store of
        None \<Rightarrow> Inl RuleStoreError
      | Some (exclusionRules, mappingRules) \<Rightarrow>
          analyze_loop RegExp exclusionRules mappingRules (empty_results, []) softwareList)"

section \<open>The route \<^verbatim>\<open>/api/analyze\<close> after the analysis\<close>

text \<open>
  \<^verbatim>\<open>parseInt(v)\<close> first turns \<open>v\<close> into a string, skips leading white space, reads a sign
  and a prefix \<^verbatim>\<open>0x\<close>, and then the longest run of digits of the radix; with no digit the
  result is \<^verbatim>\<open>NaN\<close> (\<open>None\<close>). The strings of \<^verbatim>\<open>undefined\<close> and \<^verbatim>\<open>null\<close> start with no digit,
  and the string of an integer of magnitude below \<open>10 ^ 21\<close> is its decimal numeral, which is
  read back as it is. The numbers of JavaScript hold the integers up to \<open>2 ^ 53\<close> in magnitude
  exactly; the statements about sums below are for counts within that range.
\<close>

definition digit_of :: "nat \<Rightarrow> char \<Rightarrow> nat option" where
  "digit_of radix c =
     (let n = (of_char c :: nat);
          v = (if 48 \<le> n \<and> n \<le> 57 then Some (n - 48)
               else if 97 \<le> n \<and> n \<le> 122 then Some (n - 87)
               else if 65 \<le> n \<and> n \<le> 90 then Some (n - 55)
               else None)
      in case v of None \<Rightarrow> None | Some d \<Rightarrow> if d < radix then Some d else None)"

definition digits_value :: "nat \<Rightarrow> string \<Rightarrow> nat" where
  "digits_value radix ds =
     foldl (\<lambda>acc c. case digit_of radix c of None \<Rightarrow> acc | Some d \<Rightarrow> acc * radix + d) 0 ds"

definition parseInt_string :: "string \<Rightarrow> int option" where
  "parseInt_string s =
     (let s1 = dropWhile is_white_space s;
          negative = startsWith s1 ''-'';
          s2 = (if startsWith s1 ''-'' \<or> startsWith s1 ''+'' then drop 1 s1 else s1);
          hex = (startsWith s2 ''0x'' \<or> startsWith s2 ''0X'');
          radix = (if hex then 16 else 10);
          s3 = (if hex then drop 2 s2 else s2);
          z = takeWhile (\<lambda>c. digit_of radix c \<noteq> None) s3
      in if z = [] then None
         else Some ((if negative then - 1 else 1) * int (digits_value radix z)))"

definition parseInt :: "jsval \<Rightarrow> int option" where
  "parseInt v =
     (case v of
        JUndefined \<Rightarrow> None
      | JNull \<Rightarrow> None
      | JNum n \<Rightarrow> Some n
      | JStr s \<Rightarrow> parseInt_string s)"

text \<open>\<^verbatim>\<open>parseInt(e.deviceCount) || 1\<close>: \<^verbatim>\<open>NaN\<close> and \<^verbatim>\<open>0\<close> are falsy.\<close>

definition device_count_or_1 :: "inventory_entry \<Rightarrow> int" where
  "device_count_or_1 e =
     (case parseInt (deviceCount e) of None \<Rightarrow> 1 | Some n \<Rightarrow> if n = 0 then 1 else n)"

record included_item = aggregate +
  originalCount :: nat
  totalDevices :: int

text \<open>One element of \<^verbatim>\<open>includedArray\<close>: the aggregate with its two derived fields.\<close>

definition with_counts :: "aggregate \<Rightarrow> included_item" where
  "with_counts item =
     \<lparr>canonicalName = canonicalName item, agg_category = agg_category item,
      deploymentType = deploymentType item, agg_description = agg_description item,
      originalEntries = originalEntries item,
      originalCount = length (originalEntries item),
      totalDevices = foldl (\<lambda>sum e. sum + device_count_or_1 e) 0 (originalEntries item)\<rparr>"

subsection \<open>Dispositions\<close>

text \<open>
  A row of \<^verbatim>\<open>disposition_mappings\<close> joined with \<^verbatim>\<open>approved_software\<close>, and the store as the
  route sees it: its rows, whether the \<^verbatim>\<open>SELECT\<close> throws, and for which names the
  \<^verbatim>\<open>INSERT\<close> throws. The rows that the route inserts are not part of its response and are
  left out.
\<close>

record disposition_row =
  row_canonical_name :: string
  row_disposition :: "string option"
  approved_software_id :: "int option"
  replacement_name :: "string option"
  replacement_category :: "string option"
  row_notes :: "string option"

record disposition_store =
  store_rows :: "disposition_row list"
  select_fails :: bool
  insert_fails :: "string \<Rightarrow> bool"

record disposition_info =
  info_disposition :: "string option"
  info_replacementId :: "int option"
  info_replacementName :: "string option"
  info_replacementCategory :: "string option"
  info_notes :: "string option"

definition fetch_dispositions ::
  "disposition_store \<Rightarrow> string list \<Rightarrow> (string \<times> disposition_info) list" where
  "fetch_dispositions store canonicalNames =
     (if canonicalNames = [] then []
      else if select_fails store then []
      else
        foldl (\<lambda>m row. map_set m (row_canonical_name row)
                 \<lparr>info_disposition = row_disposition row,
                  info_replacementId = approved_software_id row,
                  info_replacementName = replacement_name row,
                  info_replacementCategory = replacement_category row,
                  info_notes = row_notes row\<rparr>)
          []
          (filter (\<lambda>row. row_canonical_name row \<in> set canonicalNames) (store_rows store)))"

definition pending_info :: disposition_info where
  "pending_info =
     \<lparr>info_disposition = Some ''pending'', info_replacementId = None,
      info_replacementName = None, info_replacementCategory = None, info_notes = None\<rparr>"

definition create_missing ::
  "disposition_store \<Rightarrow> string list \<Rightarrow> (string \<times> disposition_info) list \<Rightarrow>
   (string \<times> disposition_info) list" where
  "create_missing store canonicalNames dispositionMap =
     foldl (\<lambda>m nm. if insert_fails store nm then m else map_set m nm pending_info)
       dispositionMap
       (filter (\<lambda>nm. \<not> map_has dispositionMap nm) canonicalNames)"

text \<open>\<^verbatim>\<open>x || null\<close> on a nullable string and on a nullable id.\<close>

definition or_null :: "string option \<Rightarrow> string option" where
  "or_null x = (case x of None \<Rightarrow> None | Some s \<Rightarrow> if s = [] then None else Some s)"

definition or_null_id :: "int option \<Rightarrow> int option" where
  "or_null_id x = (case x of None \<Rightarrow> None | Some n \<Rightarrow> if n = 0 then None else Some n)"

record enriched_item = included_item +
  disposition :: string
  replacementId :: "int option"
  replacementName :: "string option"
  dispositionNotes :: "string option"

definition with_disposition ::
  "(string \<times> disposition_info) list \<Rightarrow> included_item \<Rightarrow> enriched_item" where
  "with_disposition dispositionMap item =
     (let d = map_get dispositionMap (canonicalName item) in
      \<lparr>canonicalName = canonicalName item, agg_category = agg_category item,
       deploymentType = deploymentType item, agg_description = agg_description item,
       originalEntries = originalEntries item,
       originalCount = originalCount item, totalDevices = totalDevices item,
       disposition = or_default (Option.bind d info_disposition) ''pending'',
       replacementId = or_null_id (Option.bind d info_replacementId),
       replacementName = or_null (Option.bind d info_replacementName),
       dispositionNotes = or_null (Option.bind d info_notes)\<rparr>)"

subsection \<open>Sorting\<close>

text \<open>
  \<^verbatim>\<open>Array.prototype.sort\<close> with a comparison function, as V8, the engine of Node, carries
  it out on an array of fewer than 64 elements. The elements at the start that are already
  in order form a run; when the second element compares less than the first, the run is
  the strictly descending start of the array instead, and is reversed. Every later element
  is then put into the sorted part at the place that a binary search finds for it, after
  the elements that it does not compare less than. A comparison that yields \<^verbatim>\<open>NaN\<close> counts as
  \<open>0\<close>. On a longer array V8 sorts pieces in this way and merges them; with a consistent
  comparison function the result is the same list, the one order that keeps equal elements
  in their places.
\<close>

fun run_length :: "('a \<Rightarrow> 'a \<Rightarrow> int) \<Rightarrow> bool \<Rightarrow> 'a \<Rightarrow> 'a list \<Rightarrow> nat" where
  "run_length cmp descending previous [] = 0"
| "run_length cmp descending previous (current # rest) =
     (let order = cmp current previous
      in if (if descending then order \<ge> 0 else order < 0) then 0
         else Suc (run_length cmp descending current rest))"

text \<open>The binary search between \<open>left\<close> and \<open>right\<close>, where \<open>left \<le> right \<le> length xs\<close>, so
  that the element read is one of the list.\<close>

function bisect :: "('a \<Rightarrow> 'a \<Rightarrow> int) \<Rightarrow> 'a \<Rightarrow> 'a list \<Rightarrow> nat \<Rightarrow> nat \<Rightarrow> nat" where
  "bisect cmp pivot xs left right =
     (if left < right
      then (let mid = left + (right - left) div 2
            in if cmp pivot (xs ! mid) < 0 then bisect cmp pivot xs left mid
               else bisect cmp pivot xs (mid + 1) right)
      else left)"
  by pat_completeness auto
termination
  by (relation "measure (\<lambda>(cmp, pivot, xs, left, right). right - left)") auto

declare bisect.simps [simp del]

definition binary_insert :: "('a \<Rightarrow> 'a \<Rightarrow> int) \<Rightarrow> 'a list \<Rightarrow> 'a \<Rightarrow> 'a list" where
  "binary_insert cmp xs pivot =
     (let left = bisect cmp pivot xs 0 (length xs)
      in take left xs @ pivot # drop left xs)"

definition js_sort :: "('a \<Rightarrow> 'a \<Rightarrow> int) \<Rightarrow> 'a list \<Rightarrow> 'a list" where
  "js_sort cmp xs =
     (case xs of
        [] \<Rightarrow> []
      | [x] \<Rightarrow> [x]
      | x # y # rest \<Rightarrow>
          (let descending = (cmp y x < 0);
               k = run_length cmp descending y rest;
               run = x # y # take k rest
           in foldl (binary_insert cmp) (if descending then rev run else run) (drop k rest)))"

text \<open>\<^verbatim>\<open>x || 0\<close> on a device count, and the number that the subtraction takes an operand
  for: a string is read as an integer literal (decimal with an optional sign, or with a
  prefix \<^verbatim>\<open>0x\<close>, \<^verbatim>\<open>0o\<close>, \<^verbatim>\<open>0b\<close>) between white space, the empty string as \<open>0\<close>, and
  a string that is no numeric literal as \<^verbatim>\<open>NaN\<close> (\<open>None\<close>). Literals with a fraction or an
  exponent and \<^verbatim>\<open>Infinity\<close> are outside the integers of this model; the statements below
  speak of the device counts for which \<open>to_number\<close> has a value, and of \<^verbatim>\<open>abc\<close>.\<close>

definition or_zero :: "jsval \<Rightarrow> jsval" where
  "or_zero v =
     (case v of
        JUndefined \<Rightarrow> JNum 0
      | JNull \<Rightarrow> JNum 0
      | JNum n \<Rightarrow> JNum n
      | JStr s \<Rightarrow> if s = [] then JNum 0 else JStr s)"

definition all_digits :: "nat \<Rightarrow> string \<Rightarrow> int option" where
  "all_digits radix ds =
     (if ds \<noteq> [] \<and> list_all (\<lambda>c. digit_of radix c \<noteq> None) ds
      then Some (int (digits_value radix ds)) else None)"

definition string_to_number :: "string \<Rightarrow> int option" where
  "string_to_number s =
     (let t = trim s in
      if t = [] then Some 0
      else if startsWith t ''0x'' \<or> startsWith t ''0X'' then all_digits 16 (drop 2 t)
      else if startsWith t ''0o'' \<or> startsWith t ''0O'' then all_digits 8 (drop 2 t)
      else if startsWith t ''0b'' \<or> startsWith t ''0B'' then all_digits 2 (drop 2 t)
      else if startsWith t ''-'' then map_option uminus (all_digits 10 (drop 1 t))
      else if startsWith t ''+'' then all_digits 10 (drop 1 t)
      else all_digits 10 t)"

definition to_number :: "jsval \<Rightarrow> int option" where
  "to_number v =
     (case v of
        JUndefined \<Rightarrow> None
      | JNull \<Rightarrow> Some 0
      | JNum n \<Rightarrow> Some n
      | JStr s \<Rightarrow> string_to_number s)"

text \<open>The two comparison functions of the route.\<close>

definition compare_names ::
  "(string \<Rightarrow> string \<Rightarrow> int) \<Rightarrow> enriched_item \<Rightarrow> enriched_item \<Rightarrow> int" where
  "compare_names localeCompare a b = localeCompare (canonicalName a) (canonicalName b)"

definition compare_devices :: "inventory_entry \<Rightarrow> inventory_entry \<Rightarrow> int" where
  "compare_devices a b =
     (case (to_number (or_zero (deviceCount b)), to_number (or_zero (deviceCount a))) of
        (Some x, Some y) \<Rightarrow> x - y
      | _ \<Rightarrow> 0)"

subsection \<open>The response\<close>

record response =
  totalInput :: nat
  totalOutput :: nat
  excludedCount :: nat
  unmappedCount :: nat
  pendingDisposition :: nat
  response_included :: "enriched_item list"
  response_excluded :: "excluded_entry list"
  response_unmapped :: "inventory_entry list"

text \<open>
  The route from the call of \<^verbatim>\<open>analyzer.analyze\<close> to \<^verbatim>\<open>res.json\<close>, with the platform's
  \<^verbatim>\<open>localeCompare\<close> as a parameter. An error thrown on the way is caught by the handler and
  answered with status 500.
\<close>

definition api_analyze ::
  "regexp_engine \<Rightarrow> (string \<Rightarrow> string \<Rightarrow> int) \<Rightarrow> rule_store \<Rightarrow> disposition_store \<Rightarrow>
   inventory_entry list \<Rightarrow> error + response" where
  "api_analyze RegExp localeCompare rules store softwareList =
     (case analyze RegExp rules softwareList of
        Inl e \<Rightarrow> Inl e
      | Inr (res, console) \<Rightarrow>
          (let includedArray = map with_counts (map_values (included res));
               canonicalNames = map canonicalName includedArray;
               dispositionMap =
                 create_missing store canonicalNames (fetch_dispositions store canonicalNames);
               includedWithDisposition = map (with_disposition dispositionMap) includedArray
           in Inr
             \<lparr>totalInput = length softwareList,
              totalOutput = length includedWithDisposition,
              excludedCount = length (excluded res),
              unmappedCount = length (unmapped res),
              pendingDisposition =
                length (filter (\<lambda>i. disposition i = ''pending'') includedWithDisposition),
              response_included = js_sort (compare_names localeCompare) includedWithDisposition,
              response_excluded = excluded res,
              response_unmapped = js_sort compare_devices (unmapped res)\<rparr>))"

section \<open>Notions used in the statements\<close>

text \<open>An entry whose \<^verbatim>\<open>name\<close> is a string or is missing, as the data model has it.\<close>

definition has_text_name :: "inventory_entry \<Rightarrow> bool" where
  "has_text_name item = (case name item of JNum n \<Rightarrow> False | _ \<Rightarrow> True)"

text \<open>The pattern types that the \<^verbatim>\<open>switch\<close> of each stage names.\<close>

definition exclusion_type_handled :: "exclusion_rule \<Rightarrow> bool" where
  "exclusion_type_handled r =
     (pattern_type r \<in> set [''exact'', ''contains'', ''startswith'', ''endswith'', ''regex''])"

definition mapping_type_handled :: "mapping_rule \<Rightarrow> bool" where
  "mapping_type_handled r =
     (mapping_pattern_type r \<in> set [''exact'', ''contains'', ''startswith'', ''regex''])"

text \<open>A rule of type \<^verbatim>\<open>regex\<close> whose pattern the engine rejects.\<close>

definition invalid_exclusion_regex :: "regexp_engine \<Rightarrow> exclusion_rule \<Rightarrow> bool" where
  "invalid_exclusion_regex RegExp r = (pattern_type r = ''regex'' \<and> RegExp (pattern_value r) ''i'' = None)"

definition invalid_mapping_regex :: "regexp_engine \<Rightarrow> mapping_rule \<Rightarrow> bool" where
  "invalid_mapping_regex RegExp r =
     (mapping_pattern_type r = ''regex'' \<and> RegExp (original_pattern r) ''i'' = None)"

text \<open>What the flag \<^verbatim>\<open>'i'\<close> asks of the engine: an expression compiled with that flag does
  not tell two subjects apart that have the same lower-case form. Nothing is asked of the
  expressions compiled with other flags.\<close>

definition ignores_case :: "regexp_engine \<Rightarrow> bool" where
  "ignores_case RegExp =
     (\<forall>p f a b. RegExp p ''i'' = Some f \<longrightarrow> toLowerCase a = toLowerCase b \<longrightarrow> f a = f b)"

text \<open>A small engine for concrete runs: \<^verbatim>\<open>(\<close> alone is a syntax error, any other pattern is
  read as a literal and searched for, without regard to case when the flags contain \<^verbatim>\<open>i\<close>
  and with regard to it when they do not.\<close>

definition literal_engine :: regexp_engine where
  "literal_engine p flags =
     (if p = ''('' then None
      else if CHR ''i'' \<in> set flags
        then Some (\<lambda>s. js_includes (toLowerCase s) (toLowerCase p))
        else Some (\<lambda>s. js_includes s p))"

text \<open>
  The branch that the loop body of \<^verbatim>\<open>analyze\<close> takes for a trimmed name: \<^verbatim>\<open>continue\<close> on an
  empty name, the exclusion branch with the rule found, the mapping branch with the rule found,
  or the final \<^verbatim>\<open>else\<close>.
\<close>

datatype bucket = Skipped | IsExcluded exclusion_rule | IsMapped mapping_rule | IsUnmapped

definition bucket_of ::
  "regexp_engine \<Rightarrow> exclusion_rule list \<Rightarrow> mapping_rule list \<Rightarrow> string \<Rightarrow> bucket" where
  "bucket_of RegExp exclusionRules mappingRules nm =
     (if nm = [] then Skipped
      else
        (case fst (shouldExclude RegExp exclusionRules nm) of
           Excluded r \<Rightarrow> IsExcluded r
         | NotExcluded \<Rightarrow>
             (case fst (findMapping RegExp mappingRules nm) of
                Some m \<Rightarrow> IsMapped m
              | None \<Rightarrow> IsUnmapped)))"

text \<open>The aggregate that a mapping rule seeds, and the record kept of an entry.\<close>

definition seeded :: "mapping_rule \<Rightarrow> aggregate" where
  "seeded m =
     \<lparr>canonicalName = canonical_name m,
      agg_category = or_default (mapping_category m) ''Uncategorized'',
      deploymentType = or_default (deployment_type m) ''Desktop'',
      agg_description = or_default (description m) [],
      originalEntries = []\<rparr>"

definition record_of :: "string \<Rightarrow> inventory_entry \<Rightarrow> inventory_entry" where
  "record_of nm item = \<lparr>name = JStr nm, publisher = publisher item, deviceCount = deviceCount item\<rparr>"

definition push_entry :: "inventory_entry \<Rightarrow> aggregate \<Rightarrow> aggregate" where
  "push_entry e a = a\<lparr>originalEntries := originalEntries a @ [e]\<rparr>"

text \<open>The results after one iteration of the loop, on an entry whose \<^verbatim>\<open>name?.trim()\<close> is
  \<open>t\<close>.\<close>

definition step_results ::
  "regexp_engine \<Rightarrow> exclusion_rule list \<Rightarrow> mapping_rule list \<Rightarrow> results \<Rightarrow>
   inventory_entry \<Rightarrow> string option \<Rightarrow> results" where
  "step_results RegExp exclusionRules mappingRules res item t =
     (case t of
        None \<Rightarrow> res
      | Some nm \<Rightarrow>
         (case bucket_of RegExp exclusionRules mappingRules nm of
            Skipped \<Rightarrow> res
          | IsExcluded r \<Rightarrow>
              res\<lparr>excluded := excluded res @
                [\<lparr>excluded_name = nm, excluded_reason = category r, ruleReason = reason r\<rparr>]\<rparr>
          | IsMapped m \<Rightarrow>
              res\<lparr>included :=
                map_modify
                  (if \<not> map_has (included res) (canonical_name m)
                   then map_set (included res) (canonical_name m) (seeded m)
                   else included res)
                  (canonical_name m) (push_entry (record_of nm item))\<rparr>
          | IsUnmapped \<Rightarrow> res\<lparr>unmapped := unmapped res @ [record_of nm item]\<rparr>))"

text \<open>The names that the loop classifies: those that are not empty after trimming.\<close>

definition valid_names :: "inventory_entry list \<Rightarrow> string list" where
  "valid_names items =
     concat (map (\<lambda>item. case optional_trim (name item) of
                             Inr (Some nm) \<Rightarrow> if nm = [] then [] else [nm]
                           | _ \<Rightarrow> []) items)"

definition goes_excluded ::
  "regexp_engine \<Rightarrow> exclusion_rule list \<Rightarrow> mapping_rule list \<Rightarrow> string \<Rightarrow> bool" where
  "goes_excluded RegExp exclusionRules mappingRules nm =
     (case bucket_of RegExp exclusionRules mappingRules nm of IsExcluded r \<Rightarrow> True | _ \<Rightarrow> False)"

definition goes_included ::
  "regexp_engine \<Rightarrow> exclusion_rule list \<Rightarrow> mapping_rule list \<Rightarrow> string \<Rightarrow> bool" where
  "goes_included RegExp exclusionRules mappingRules nm =
     (case bucket_of RegExp exclusionRules mappingRules nm of IsMapped m \<Rightarrow> True | _ \<Rightarrow> False)"

definition goes_unmapped ::
  "regexp_engine \<Rightarrow> exclusion_rule list \<Rightarrow> mapping_rule list \<Rightarrow> string \<Rightarrow> bool" where
  "goes_unmapped RegExp exclusionRules mappingRules nm =
     (bucket_of RegExp exclusionRules mappingRules nm = IsUnmapped)"

text \<open>The names found in each of the three buckets of a result.\<close>

definition entry_text :: "inventory_entry \<Rightarrow> string" where
  "entry_text e = (case name e of JStr s \<Rightarrow> s | _ \<Rightarrow> [])"

definition excluded_names :: "results \<Rightarrow> string list" where
  "excluded_names res = map excluded_name (excluded res)"

definition contributors :: "(string \<times> aggregate) list \<Rightarrow> inventory_entry list" where
  "contributors m = concat (map originalEntries (map_values m))"

definition included_names :: "results \<Rightarrow> string list" where
  "included_names res = map entry_text (contributors (included res))"

definition unmapped_names :: "results \<Rightarrow> string list" where
  "unmapped_names res = map entry_text (unmapped res)"



text \<open>
  The device count of an entry as the specification's sentence about \<^verbatim>\<open>totalDevices\<close> reads
  it: the value of \<^verbatim>\<open>deviceCount\<close>, and \<open>1\<close> when it is missing or not numeric.
\<close>

definition spec_device_count :: "inventory_entry \<Rightarrow> int" where
  "spec_device_count e =
     (case deviceCount e of
        JUndefined \<Rightarrow> 1
      | JNull \<Rightarrow> 1
      | JNum n \<Rightarrow> n
      | JStr s \<Rightarrow> (case string_to_number s of None \<Rightarrow> 1 | Some n \<Rightarrow> n))"

text \<open>
  The counts for which the additions of \<^verbatim>\<open>totalDevices\<close> are exact on the numbers of
  JavaScript, which hold every integer up to \<open>2 ^ 53\<close> in magnitude: the magnitudes of the
  integers added are together at most \<open>2 ^ 53\<close>, and so is every one of them and every
  partial sum.
\<close>

definition exact_counts :: "inventory_entry list \<Rightarrow> bool" where
  "exact_counts es = (sum_list (map (\<lambda>e. \<bar>device_count_or_1 e\<bar>) es) \<le> 2 ^ 53)"

text \<open>The lists of a response, empty for a failed request.\<close>

definition included_of :: "error + response \<Rightarrow> enriched_item list" where
  "included_of r = (case r of Inl e \<Rightarrow> [] | Inr resp \<Rightarrow> response_included resp)"






text \<open>The outcome of an analysis without the console.\<close>

definition outcome :: "error + results \<times> string list \<Rightarrow> error + results" where
  "outcome r = (case r of Inl e \<Rightarrow> Inl e | Inr (res, console) \<Rightarrow> Inr res)"

section \<open>Sample data\<close>

text \<open>Two of the default exclusion rules of the schema.\<close>

definition kb_rule :: exclusion_rule where
  "kb_rule = \<lparr>pattern_type = ''contains'', pattern_value = ''(KB'', category = ''Windows Updates'',
      reason = Some ''KB article updates - not business applications''\<rparr>"

definition security_update_rule :: exclusion_rule where
  "security_update_rule = \<lparr>pattern_type = ''startswith'', pattern_value = ''Security Update for Microsoft'',
      category = ''Windows Updates'',
      reason = Some ''Microsoft security patches - not business applications''\<rparr>"

text \<open>An exclusion rule whose regular expression does not compile.\<close>

definition broken_rule :: exclusion_rule where
  "broken_rule = \<lparr>pattern_type = ''regex'', pattern_value = ''('', category = ''Broken'',
      reason = None\<rparr>"

text \<open>The two default mapping rules that share the canonical name \<^verbatim>\<open>AMS360\<close>.\<close>

definition ams_client_rule :: mapping_rule where
  "ams_client_rule =
     \<lparr>mapping_pattern_type = ''startswith'', original_pattern = ''AMS360 Client Rev'',
      canonical_name = ''AMS360'', mapping_category = Some ''Industry / LOB'',
      deployment_type = Some ''Both'',
      description = Some ''Insurance agency management system by Vertafore''\<rparr>"

definition ams_transact_rule :: mapping_rule where
  "ams_transact_rule =
     \<lparr>mapping_pattern_type = ''contains'', original_pattern = ''AMS TransactNOW'',
      canonical_name = ''AMS360'', mapping_category = Some ''Industry / LOB'',
      deployment_type = Some ''Both'',
      description = Some ''AMS360 transaction processing component''\<rparr>"

text \<open>An inventory with one entry for each way through the loop of \<^verbatim>\<open>analyze\<close>: an
  excluded entry (with blanks around its name), two entries of one canonical name reached by
  different rules, an unknown one, a blank name and a missing name.\<close>

definition sample_inventory :: "inventory_entry list" where
  "sample_inventory =
     [\<lparr>name = JStr '' Security Update for Microsoft Office (KB123) '',
       publisher = JStr ''Microsoft'', deviceCount = JNum 4\<rparr>,
      \<lparr>name = JStr ''AMS TransactNOW'', publisher = JStr ''Vertafore'', deviceCount = JStr ''0''\<rparr>,
      \<lparr>name = JStr ''AMS360 Client Rev 9'', publisher = JStr ''Vertafore'', deviceCount = JStr ''abc''\<rparr>,
      \<lparr>name = JStr ''TotallyUnknownApp'', publisher = JStr [], deviceCount = JNum 2\<rparr>,
      \<lparr>name = JStr ''   '', publisher = JStr [], deviceCount = JNum 1\<rparr>,
      \<lparr>name = JUndefined, publisher = JStr [], deviceCount = JNum 1\<rparr>]"

definition sample_rules :: "exclusion_rule list \<times> mapping_rule list" where
  "sample_rules = ([security_update_rule, kb_rule], [ams_client_rule, ams_transact_rule])"

text \<open>A comparison of strings by their character codes, in place of \<^verbatim>\<open>localeCompare\<close> in
  concrete runs; a disposition store without rows, and one that is down.\<close>

fun code_unit_compare :: "string \<Rightarrow> string \<Rightarrow> int" where
  "code_unit_compare [] [] = 0"
| "code_unit_compare [] (y # ys) = - 1"
| "code_unit_compare (x # xs) [] = 1"
| "code_unit_compare (x # xs) (y # ys) =
     (if (of_char x :: nat) < of_char y then - 1
      else if (of_char y :: nat) < of_char x then 1
      else code_unit_compare xs ys)"

definition empty_store :: disposition_store where
  "empty_store = \<lparr>store_rows = [], select_fails = False, insert_fails = (\<lambda>nm. False)\<rparr>"

definition down_store :: disposition_store where
  "down_store = \<lparr>store_rows = [], select_fails = True, insert_fails = (\<lambda>nm. True)\<rparr>"




text \<open>An inventory in which the name of the second entry is a number.\<close>

definition numbered_inventory :: "inventory_entry list" where
  "numbered_inventory =
     [\<lparr>name = JStr ''TotallyUnknownApp'', publisher = JStr [], deviceCount = JNum 2\<rparr>,
      \<lparr>name = JNum 2019, publisher = JStr [], deviceCount = JNum 1\<rparr>]"

text \<open>Five entries with the device counts \<open>1\<close>, \<open>7\<close>, \<^verbatim>\<open>abc\<close>, \<open>3\<close> and \<open>9\<close>.\<close>

definition unsorted_counts :: "inventory_entry list" where
  "unsorted_counts =
     map (\<lambda>c. \<lparr>name = JStr ''Tool'', publisher = JStr [], deviceCount = c\<rparr>)
       [JNum 1, JNum 7, JStr ''abc'', JNum 3, JNum 9]"

text \<open>Three entries of one canonical name whose device counts are strings.\<close>

definition counted_inventory :: "inventory_entry list" where
  "counted_inventory =
     [\<lparr>name = JStr ''AMS TransactNOW'', publisher = JStr ''Vertafore'', deviceCount = JStr ''0''\<rparr>,
      \<lparr>name = JStr ''AMS360 Client Rev 9'', publisher = JStr ''Vertafore'',
       deviceCount = JStr ''abc''\<rparr>,
      \<lparr>name = JStr ''AMS360 Client Rev 10'', publisher = JStr ''Vertafore'',
       deviceCount = JStr ''12abc''\<rparr>]"

text \<open>An exclusion rule for a browser, as a prefix and as a regular expression; and the name
  \<^verbatim>\<open>stra\<close>\<open>\<ss>\<close>\<^verbatim>\<open>e\<close> (the sharp s has the code 223) with a rule of type \<^verbatim>\<open>exact\<close> for it.\<close>

definition chrome_prefix_rule :: exclusion_rule where
  "chrome_prefix_rule =
     \<lparr>pattern_type = ''startswith'', pattern_value = ''Google Chrome'', category = ''Browsers'',
      reason = None\<rparr>"

definition chrome_regex_rule :: exclusion_rule where
  "chrome_regex_rule =
     \<lparr>pattern_type = ''regex'', pattern_value = ''chrome'', category = ''Browsers'',
      reason = None\<rparr>"

definition strasse :: string where
  "strasse = ''stra'' @ [CHR 0xDF] @ ''e''"

definition strasse_rule :: exclusion_rule where
  "strasse_rule =
     \<lparr>pattern_type = ''exact'', pattern_value = strasse, category = ''Streets'', reason = None\<rparr>"

section \<open>The string primitives\<close>

lemma startsWith_iff: "startsWith s p \<longleftrightarrow> (\<exists>t. s = p @ t)"
  by (induction s p rule: startsWith.induct) auto

lemma endsWith_iff: "endsWith s p \<longleftrightarrow> (\<exists>t. s = t @ p)"
proof -
  have "(\<exists>t. rev s = rev p @ t) \<longleftrightarrow> (\<exists>t. s = t @ p)"
    by (metis rev_append rev_rev_ident)
  then show ?thesis by (simp add: endsWith_def startsWith_iff)
qed

lemma js_includes_iff: "js_includes s p \<longleftrightarrow> (\<exists>a b. s = a @ p @ b)"
proof (induction s)
  case Nil
  then show ?case by simp
next
  case (Cons c s)
  have "(\<exists>a b. c # s = a @ p @ b) \<longleftrightarrow> (\<exists>t. c # s = p @ t) \<or> (\<exists>a b. s = a @ p @ b)"
    by (auto simp: Cons_eq_append_conv)
  with Cons show ?case by (simp add: startsWith_iff del: startsWith.simps)
qed

section \<open>Scanning the rules\<close>

lemma exclusion_scan_append:
  "\<forall>q\<in>set pre. \<not> fst (exclusion_matches RegExp q nm) \<Longrightarrow>
   exclusion_scan RegExp (pre @ rules) nm =
     (fst (exclusion_scan RegExp rules nm),
      concat (map (\<lambda>q. snd (exclusion_matches RegExp q nm)) pre) @ snd (exclusion_scan RegExp rules nm))"
  by (induction pre) (auto split: prod.splits bool.splits)

lemma exclusion_scan_hit:
  "fst (exclusion_matches RegExp r nm) \<Longrightarrow>
   exclusion_scan RegExp (r # rules) nm = (Excluded r, snd (exclusion_matches RegExp r nm))"
  by (auto split: prod.splits bool.splits)

lemma exclusion_scan_miss:
  "\<not> fst (exclusion_matches RegExp r nm) \<Longrightarrow>
   exclusion_scan RegExp (r # rules) nm =
     (fst (exclusion_scan RegExp rules nm),
      snd (exclusion_matches RegExp r nm) @ snd (exclusion_scan RegExp rules nm))"
  by (auto split: prod.splits bool.splits)

lemma exclusion_scan_filter:
  "\<forall>r\<in>set rules. \<not> P r \<longrightarrow> exclusion_matches RegExp r nm = (False, []) \<Longrightarrow>
   exclusion_scan RegExp (filter P rules) nm = exclusion_scan RegExp rules nm"
  by (induction rules) (auto split: prod.splits bool.splits)

lemma exclusion_scan_filter_fst:
  "\<forall>r\<in>set rules. \<not> P r \<longrightarrow> \<not> fst (exclusion_matches RegExp r nm) \<Longrightarrow>
   fst (exclusion_scan RegExp (filter P rules) nm) = fst (exclusion_scan RegExp rules nm)"
  by (induction rules) (auto split: prod.splits bool.splits)

lemma mapping_scan_filter:
  "\<forall>r\<in>set rules. \<not> P r \<longrightarrow> mapping_matches RegExp r nm = (False, []) \<Longrightarrow>
   mapping_scan RegExp (filter P rules) nm = mapping_scan RegExp rules nm"
  by (induction rules) (auto split: prod.splits bool.splits)

lemma mapping_scan_filter_fst:
  "\<forall>r\<in>set rules. \<not> P r \<longrightarrow> \<not> fst (mapping_matches RegExp r nm) \<Longrightarrow>
   fst (mapping_scan RegExp (filter P rules) nm) = fst (mapping_scan RegExp rules nm)"
  by (induction rules) (auto split: prod.splits bool.splits)

lemma exclusion_unhandled:
  "\<not> exclusion_type_handled r \<Longrightarrow> exclusion_matches RegExp r nm = (False, [])"
  by (simp add: exclusion_type_handled_def exclusion_matches_def)

lemma mapping_unhandled:
  "\<not> mapping_type_handled r \<Longrightarrow> mapping_matches RegExp r nm = (False, [])"
  by (simp add: mapping_type_handled_def mapping_matches_def)

text \<open>
  Claim C9. A rule whose pattern type is not among those that the \<^verbatim>\<open>switch\<close> of the stage
  names never matches and writes no warning: the exclusion filter and the mapping resolver
  return what they return without such rules. A mapping rule of type \<^verbatim>\<open>endswith\<close> is one
  of them. Neither function can fail on such a rule.
\<close>

theorem unhandled_pattern_type_never_matches:
  "(\<not> exclusion_type_handled r \<longrightarrow> exclusion_matches RegExp r nm = (False, [])) \<and>
   (\<not> mapping_type_handled m \<longrightarrow> mapping_matches RegExp m nm = (False, [])) \<and>
   (mapping_pattern_type m = ''endswith'' \<longrightarrow> mapping_matches RegExp m nm = (False, [])) \<and>
   shouldExclude RegExp exclusionRules nm =
     shouldExclude RegExp (filter exclusion_type_handled exclusionRules) nm \<and>
   findMapping RegExp mappingRules nm =
     findMapping RegExp (filter mapping_type_handled mappingRules) nm"
proof -
  have "mapping_pattern_type m = ''endswith'' \<longrightarrow> \<not> mapping_type_handled m"
    by (simp add: mapping_type_handled_def)
  moreover have "exclusion_scan RegExp (filter exclusion_type_handled exclusionRules) (trim nm) =
      exclusion_scan RegExp exclusionRules (trim nm)"
    by (rule exclusion_scan_filter) (simp add: exclusion_unhandled)
  moreover have "mapping_scan RegExp (filter mapping_type_handled mappingRules) (trim nm) =
      mapping_scan RegExp mappingRules (trim nm)"
    by (rule mapping_scan_filter) (simp add: mapping_unhandled)
  ultimately show ?thesis
    by (simp add: shouldExclude_def findMapping_def exclusion_unhandled mapping_unhandled)
qed

theorem unhandled_pattern_type_never_matches_witness:
  "mapping_matches literal_engine
     \<lparr>mapping_pattern_type = ''endswith'', original_pattern = ''Chrome'',
      canonical_name = ''Google Chrome'', mapping_category = None, deployment_type = None,
      description = None\<rparr> ''Google Chrome'' = (False, []) \<and>
   exclusion_matches literal_engine
     \<lparr>pattern_type = ''glob'', pattern_value = ''Google Chrome'', category = ''Browsers'',
      reason = None\<rparr> ''Google Chrome'' = (False, []) \<and>
   fst (findMapping literal_engine
     [\<lparr>mapping_pattern_type = ''endswith'', original_pattern = ''Chrome'',
      canonical_name = ''Google Chrome'', mapping_category = None, deployment_type = None,
      description = None\<rparr>] ''Google Chrome'') = None"
proof -
  let ?m = "\<lparr>mapping_pattern_type = ''endswith'', original_pattern = ''Chrome'',
      canonical_name = ''Google Chrome'', mapping_category = None, deployment_type = None,
      description = None\<rparr>"
  let ?r = "\<lparr>pattern_type = ''glob'', pattern_value = ''Google Chrome'', category = ''Browsers'',
      reason = None\<rparr>"
  have h1: "\<not> exclusion_type_handled ?r" by (simp add: exclusion_type_handled_def)
  have h2: "\<not> mapping_type_handled ?m" by (simp add: mapping_type_handled_def)
  have h3: "filter mapping_type_handled [?m] = []" using h2 by simp
  from unhandled_pattern_type_never_matches
         [of ?r literal_engine "''Google Chrome''" ?m "[]" "[?m]"] h1 h2
  show ?thesis by (simp add: h3 findMapping_def)
qed

section \<open>Case-insensitive matching\<close>

lemma of_char_lower_char:
  "(of_char (lower_char c) :: nat) =
     (if (65 \<le> (of_char c :: nat) \<and> (of_char c :: nat) \<le> 90) \<or>
         (192 \<le> (of_char c :: nat) \<and> (of_char c :: nat) \<le> 222 \<and> (of_char c :: nat) \<noteq> 215)
      then of_char c + 32 else of_char c)"
  by (simp add: lower_char_def Let_def)

lemma white_space_lower_char: "is_white_space (lower_char c) = is_white_space c"
  by (simp add: is_white_space_def Let_def of_char_lower_char)

lemma dropWhile_white_space_lower:
  "dropWhile is_white_space (map lower_char s) = map lower_char (dropWhile is_white_space s)"
  by (induction s) (simp_all add: white_space_lower_char)

lemma toLowerCase_trim: "toLowerCase (trim s) = trim (toLowerCase s)"
  by (simp add: toLowerCase_def trim_def rev_map dropWhile_white_space_lower)

lemma exclusion_matches_case:
  assumes "ignores_case RegExp" and "toLowerCase a = toLowerCase b"
  shows "exclusion_matches RegExp r a = exclusion_matches RegExp r b"
proof (cases "RegExp (pattern_value r) ''i''")
  case None
  with assms(2) show ?thesis by (simp add: exclusion_matches_def Let_def)
next
  case (Some f)
  with assms have "f a = f b" unfolding ignores_case_def by blast
  with Some assms(2) show ?thesis by (simp add: exclusion_matches_def Let_def)
qed

lemma mapping_matches_case:
  assumes "ignores_case RegExp" and "toLowerCase a = toLowerCase b"
  shows "mapping_matches RegExp r a = mapping_matches RegExp r b"
proof (cases "RegExp (original_pattern r) ''i''")
  case None
  with assms(2) show ?thesis by (simp add: mapping_matches_def Let_def)
next
  case (Some f)
  with assms have "f a = f b" unfolding ignores_case_def by blast
  with Some assms(2) show ?thesis by (simp add: mapping_matches_def Let_def)
qed

lemma exclusion_scan_case:
  "ignores_case RegExp \<Longrightarrow> toLowerCase a = toLowerCase b \<Longrightarrow>
   exclusion_scan RegExp rules a = exclusion_scan RegExp rules b"
  by (induction rules) (simp_all add: exclusion_matches_case [of RegExp a b] split: prod.splits bool.splits)

lemma mapping_scan_case:
  "ignores_case RegExp \<Longrightarrow> toLowerCase a = toLowerCase b \<Longrightarrow>
   mapping_scan RegExp rules a = mapping_scan RegExp rules b"
  by (induction rules) (simp_all add: mapping_matches_case [of RegExp a b] split: prod.splits bool.splits)

lemma toLowerCase_trim_cong:
  "toLowerCase a = toLowerCase b \<Longrightarrow> toLowerCase (trim a) = toLowerCase (trim b)"
  by (simp add: toLowerCase_trim)

lemma ignores_case_literal_engine: "ignores_case literal_engine"
  by (auto simp: ignores_case_def literal_engine_def split: if_splits)

text \<open>
  Claim C4, as amended. Matching compares lower-case forms. Two names with the same
  lower-case form get the same answer from \<^verbatim>\<open>shouldExclude\<close> and from \<^verbatim>\<open>findMapping\<close>,
  whatever the types of the rules, given an engine whose expressions compiled with the flag
  \<^verbatim>\<open>'i'\<close> do not tell such names apart. For a rule that is not of type \<^verbatim>\<open>regex\<close> nothing is
  asked of the engine, and the rule matches the same names when its pattern is replaced by
  one with the same lower-case form. A rule of type \<^verbatim>\<open>regex\<close> is evaluated by the expression
  that the engine compiles from its pattern with the flag \<^verbatim>\<open>'i'\<close>.
\<close>

theorem matching_is_case_insensitive:
  assumes "ignores_case RegExp" and "toLowerCase n = toLowerCase n'"
  shows "shouldExclude RegExp exclusionRules n = shouldExclude RegExp exclusionRules n' \<and>
         findMapping RegExp mappingRules n = findMapping RegExp mappingRules n' \<and>
         (pattern_type r \<noteq> ''regex'' \<longrightarrow>
            exclusion_matches AnyRegExp r (trim n) = exclusion_matches AnyRegExp r (trim n')) \<and>
         (mapping_pattern_type m \<noteq> ''regex'' \<longrightarrow>
            mapping_matches AnyRegExp m (trim n) = mapping_matches AnyRegExp m (trim n')) \<and>
         (pattern_type r \<noteq> ''regex'' \<and> pattern_type r' = pattern_type r \<and>
          toLowerCase (pattern_value r') = toLowerCase (pattern_value r) \<longrightarrow>
            exclusion_matches AnyRegExp r' nm = exclusion_matches AnyRegExp r nm) \<and>
         (mapping_pattern_type m \<noteq> ''regex'' \<and> mapping_pattern_type m' = mapping_pattern_type m \<and>
          toLowerCase (original_pattern m') = toLowerCase (original_pattern m) \<longrightarrow>
            mapping_matches AnyRegExp m' nm = mapping_matches AnyRegExp m nm) \<and>
         (pattern_type r = ''regex'' \<longrightarrow>
            exclusion_matches AnyRegExp r nm =
              (case AnyRegExp (pattern_value r) ''i'' of
                 None \<Rightarrow> (False, [''Invalid regex pattern: '' @ pattern_value r])
               | Some regex \<Rightarrow> (regex nm, []))) \<and>
         (mapping_pattern_type m = ''regex'' \<longrightarrow>
            mapping_matches AnyRegExp m nm =
              (case AnyRegExp (original_pattern m) ''i'' of
                 None \<Rightarrow> (False, [''Invalid regex pattern: '' @ original_pattern m])
               | Some regex \<Rightarrow> (regex nm, [])))"
proof -
  have a: "toLowerCase (trim n) = toLowerCase (trim n')"
    using assms(2) by (rule toLowerCase_trim_cong)
  have "exclusion_scan RegExp exclusionRules (trim n) = exclusion_scan RegExp exclusionRules (trim n')"
    using assms(1) a by (rule exclusion_scan_case)
  moreover have "mapping_scan RegExp mappingRules (trim n) = mapping_scan RegExp mappingRules (trim n')"
    using assms(1) a by (rule mapping_scan_case)
  moreover have "pattern_type r \<noteq> ''regex'' \<longrightarrow>
            exclusion_matches AnyRegExp r (trim n) = exclusion_matches AnyRegExp r (trim n')"
    using a by (simp add: exclusion_matches_def Let_def)
  moreover have "mapping_pattern_type m \<noteq> ''regex'' \<longrightarrow>
            mapping_matches AnyRegExp m (trim n) = mapping_matches AnyRegExp m (trim n')"
    using a by (simp add: mapping_matches_def Let_def)
  moreover have "pattern_type r \<noteq> ''regex'' \<and> pattern_type r' = pattern_type r \<and>
          toLowerCase (pattern_value r') = toLowerCase (pattern_value r) \<longrightarrow>
            exclusion_matches AnyRegExp r' nm = exclusion_matches AnyRegExp r nm"
    by (simp add: exclusion_matches_def Let_def)
  moreover have "mapping_pattern_type m \<noteq> ''regex'' \<and> mapping_pattern_type m' = mapping_pattern_type m \<and>
          toLowerCase (original_pattern m') = toLowerCase (original_pattern m) \<longrightarrow>
            mapping_matches AnyRegExp m' nm = mapping_matches AnyRegExp m nm"
    by (simp add: mapping_matches_def Let_def)
  moreover have "pattern_type r = ''regex'' \<longrightarrow>
            exclusion_matches AnyRegExp r nm =
              (case AnyRegExp (pattern_value r) ''i'' of
                 None \<Rightarrow> (False, [''Invalid regex pattern: '' @ pattern_value r])
               | Some regex \<Rightarrow> (regex nm, []))"
    by (simp add: exclusion_matches_def Let_def)
  moreover have "mapping_pattern_type m = ''regex'' \<longrightarrow>
            mapping_matches AnyRegExp m nm =
              (case AnyRegExp (original_pattern m) ''i'' of
                 None \<Rightarrow> (False, [''Invalid regex pattern: '' @ original_pattern m])
               | Some regex \<Rightarrow> (regex nm, []))"
    by (simp add: mapping_matches_def Let_def)
  ultimately show ?thesis
    by (simp only: shouldExclude_def findMapping_def simp_thms)
qed

text \<open>
  The sentence of the specification read for every name fails where the case mapping of the
  platform is not undone by \<^verbatim>\<open>toLowerCase\<close>: the upper-case form of \<^verbatim>\<open>stra\<close>\<open>\<ss>\<close>\<^verbatim>\<open>e\<close> is
  \<^verbatim>\<open>STRASSE\<close>, whose lower-case form is \<^verbatim>\<open>strasse\<close>, and a rule of type \<^verbatim>\<open>exact\<close> with the
  pattern \<^verbatim>\<open>stra\<close>\<open>\<ss>\<close>\<^verbatim>\<open>e\<close> matches the first name and not the second.
\<close>

theorem case_alteration_counterexample:
  "exclusion_matches literal_engine strasse_rule strasse = (True, []) \<and>
   exclusion_matches literal_engine strasse_rule ''STRASSE'' = (False, []) \<and>
   toLowerCase strasse = strasse \<and>
   toLowerCase ''STRASSE'' = ''strasse''"
  by code_simp

theorem matching_is_case_insensitive_witness:
  "fst (shouldExclude literal_engine [chrome_prefix_rule] ''GOOGLE CHROME'') =
     Excluded chrome_prefix_rule \<and>
   fst (shouldExclude literal_engine [chrome_prefix_rule] ''Google Chrome'') =
     Excluded chrome_prefix_rule \<and>
   fst (shouldExclude literal_engine [chrome_prefix_rule] ''google chrome'') =
     Excluded chrome_prefix_rule \<and>
   fst (shouldExclude literal_engine [chrome_regex_rule] ''GOOGLE CHROME'') =
     Excluded chrome_regex_rule \<and>
   fst (shouldExclude literal_engine [chrome_regex_rule] ''google chrome'') =
     Excluded chrome_regex_rule \<and>
   map_option (\<lambda>regex. regex ''GOOGLE CHROME'') (literal_engine ''chrome'' ''i'') = Some True \<and>
   map_option (\<lambda>regex. regex ''GOOGLE CHROME'') (literal_engine ''chrome'' []) = Some False"
proof -
  have h1: "toLowerCase ''GOOGLE CHROME'' = toLowerCase ''google chrome''" by code_simp
  have h2: "toLowerCase ''Google Chrome'' = toLowerCase ''google chrome''" by code_simp
  have e: "fst (shouldExclude literal_engine [chrome_prefix_rule] ''google chrome'') =
      Excluded chrome_prefix_rule" by code_simp
  have f: "fst (shouldExclude literal_engine [chrome_regex_rule] ''google chrome'') =
      Excluded chrome_regex_rule" by code_simp
  have g1: "map_option (\<lambda>regex. regex ''GOOGLE CHROME'') (literal_engine ''chrome'' ''i'') = Some True"
    by code_simp
  have g2: "map_option (\<lambda>regex. regex ''GOOGLE CHROME'') (literal_engine ''chrome'' []) = Some False"
    by code_simp
  have a1: "shouldExclude literal_engine [chrome_prefix_rule] ''GOOGLE CHROME'' =
      shouldExclude literal_engine [chrome_prefix_rule] ''google chrome''"
    by (rule matching_is_case_insensitive [OF ignores_case_literal_engine h1, THEN conjunct1])
  have a2: "shouldExclude literal_engine [chrome_prefix_rule] ''Google Chrome'' =
      shouldExclude literal_engine [chrome_prefix_rule] ''google chrome''"
    by (rule matching_is_case_insensitive [OF ignores_case_literal_engine h2, THEN conjunct1])
  have a3: "shouldExclude literal_engine [chrome_regex_rule] ''GOOGLE CHROME'' =
      shouldExclude literal_engine [chrome_regex_rule] ''google chrome''"
    by (rule matching_is_case_insensitive [OF ignores_case_literal_engine h1, THEN conjunct1])
  show ?thesis
    by (intro conjI) (simp_all only: a1 a2 a3 e f g1 g2)
qed

section \<open>The earliest matching exclusion rule decides\<close>

lemma exclusion_scan_Excluded:
  "fst (exclusion_scan RegExp rules nm) = Excluded r \<Longrightarrow>
   \<exists>pre post. rules = pre @ r # post \<and> (\<forall>q\<in>set pre. \<not> fst (exclusion_matches RegExp q nm)) \<and>
     fst (exclusion_matches RegExp r nm)"
proof (induction rules)
  case Nil
  then show ?case by simp
next
  case (Cons a rules)
  show ?case
  proof (cases "fst (exclusion_matches RegExp a nm)")
    case True
    with Cons.prems have "a = r" by (simp add: exclusion_scan_hit del: exclusion_scan.simps)
    with True have "a # rules = [] @ r # rules \<and> (\<forall>q\<in>set []. \<not> fst (exclusion_matches RegExp q nm)) \<and>
     fst (exclusion_matches RegExp r nm)" by simp
    then show ?thesis by blast
  next
    case False
    with Cons.prems have "fst (exclusion_scan RegExp rules nm) = Excluded r"
      by (simp add: exclusion_scan_miss del: exclusion_scan.simps)
    from Cons.IH [OF this] obtain pre post where
      "rules = pre @ r # post" "\<forall>q\<in>set pre. \<not> fst (exclusion_matches RegExp q nm)"
      "fst (exclusion_matches RegExp r nm)" by blast
    with False have "a # rules = (a # pre) @ r # post \<and>
      (\<forall>q\<in>set (a # pre). \<not> fst (exclusion_matches RegExp q nm)) \<and>
      fst (exclusion_matches RegExp r nm)" by simp
    then show ?thesis by blast
  qed
qed

lemma analyze_item_excluded:
  "optional_trim (name item) = Inr (Some nm) \<Longrightarrow> nm \<noteq> [] \<Longrightarrow>
   shouldExclude RegExp exclusionRules nm = (Excluded r, w) \<Longrightarrow>
   analyze_item RegExp exclusionRules mappingRules (res, console) item =
     Inr (res\<lparr>excluded := excluded res @
            [\<lparr>excluded_name = nm, excluded_reason = category r, ruleReason = reason r\<rparr>]\<rparr>,
          console @ w)"
  by (simp add: analyze_item_def)

text \<open>
  Claim C2. The exclusion rules are tried in their stored order and the first one that matches
  decides: \<^verbatim>\<open>shouldExclude\<close> returns a rule exactly when it matches the trimmed name and no
  rule before it does, so of two matching rules the earlier one is returned. The loop of
  \<^verbatim>\<open>analyze\<close> then pushes a record with that rule's category and reason and goes on to the
  next entry: the new state does not depend on the mapping rules, and the console has gained
  the warnings of the exclusion scan only.
\<close>

theorem exclusion_first_match_wins:
  "(exclusionRules = pre @ r # post \<and>
    (\<forall>q\<in>set pre. \<not> fst (exclusion_matches RegExp q (trim nm))) \<and>
    fst (exclusion_matches RegExp r (trim nm)) \<longrightarrow>
      fst (shouldExclude RegExp exclusionRules nm) = Excluded r) \<and>
   (fst (shouldExclude RegExp exclusionRules nm) = Excluded r \<longrightarrow>
      (\<exists>pre post. exclusionRules = pre @ r # post \<and>
         (\<forall>q\<in>set pre. \<not> fst (exclusion_matches RegExp q (trim nm))) \<and>
         fst (exclusion_matches RegExp r (trim nm)))) \<and>
   (optional_trim (name item) = Inr (Some nm) \<and> nm \<noteq> [] \<and>
    shouldExclude RegExp exclusionRules nm = (Excluded r, w) \<longrightarrow>
      analyze_item RegExp exclusionRules mappingRules (res, console) item =
        Inr (res\<lparr>excluded := excluded res @
               [\<lparr>excluded_name = nm, excluded_reason = category r, ruleReason = reason r\<rparr>]\<rparr>,
             console @ w))"
proof (intro conjI impI)
  assume a: "exclusionRules = pre @ r # post \<and>
    (\<forall>q\<in>set pre. \<not> fst (exclusion_matches RegExp q (trim nm))) \<and>
    fst (exclusion_matches RegExp r (trim nm))"
  then have "exclusion_scan RegExp (pre @ r # post) (trim nm) =
      (fst (exclusion_scan RegExp (r # post) (trim nm)),
       concat (map (\<lambda>q. snd (exclusion_matches RegExp q (trim nm))) pre) @
       snd (exclusion_scan RegExp (r # post) (trim nm)))"
    by (intro exclusion_scan_append) simp
  with a show "fst (shouldExclude RegExp exclusionRules nm) = Excluded r"
    by (simp add: shouldExclude_def exclusion_scan_hit del: exclusion_scan.simps)
next
  assume "fst (shouldExclude RegExp exclusionRules nm) = Excluded r"
  then show "\<exists>pre post. exclusionRules = pre @ r # post \<and>
         (\<forall>q\<in>set pre. \<not> fst (exclusion_matches RegExp q (trim nm))) \<and>
         fst (exclusion_matches RegExp r (trim nm))"
    unfolding shouldExclude_def by (rule exclusion_scan_Excluded)
next
  assume "optional_trim (name item) = Inr (Some nm) \<and> nm \<noteq> [] \<and>
    shouldExclude RegExp exclusionRules nm = (Excluded r, w)"
  then show "analyze_item RegExp exclusionRules mappingRules (res, console) item =
        Inr (res\<lparr>excluded := excluded res @
               [\<lparr>excluded_name = nm, excluded_reason = category r, ruleReason = reason r\<rparr>]\<rparr>,
             console @ w)"
    by (simp add: analyze_item_excluded)
qed

theorem exclusion_first_match_wins_witness:
  "fst (exclusion_matches literal_engine kb_rule (trim ''Security Update for Microsoft Office (KB123)'')) \<and>
   fst (exclusion_matches literal_engine security_update_rule (trim ''Security Update for Microsoft Office (KB123)'')) \<and>
   fst (shouldExclude literal_engine [security_update_rule, kb_rule] ''Security Update for Microsoft Office (KB123)'')
     = Excluded security_update_rule \<and>
   fst (shouldExclude literal_engine [kb_rule, security_update_rule] ''Security Update for Microsoft Office (KB123)'')
     = Excluded kb_rule"
proof -
  let ?n = "''Security Update for Microsoft Office (KB123)''"
  have h1: "fst (exclusion_matches literal_engine kb_rule (trim ?n))" by code_simp
  have h2: "fst (exclusion_matches literal_engine security_update_rule (trim ?n))" by code_simp
  from exclusion_first_match_wins [of "[security_update_rule, kb_rule]" "[]" security_update_rule "[kb_rule]" literal_engine ?n]
       exclusion_first_match_wins [of "[kb_rule, security_update_rule]" "[]" kb_rule "[security_update_rule]" literal_engine ?n]
       h1 h2
  show ?thesis by simp
qed

section \<open>Outcome of the loop of the analysis\<close>

lemma analyze_item_type_error:
  "optional_trim (name item) = Inl e \<Longrightarrow>
   analyze_item RegExp exclusionRules mappingRules st item = Inl e"
  by (simp add: analyze_item_def split: prod.splits)

lemma push_entry_fun: "(\<lambda>a. a\<lparr>originalEntries := originalEntries a @ [e]\<rparr>) = push_entry e"
  by (simp add: fun_eq_iff push_entry_def)

lemma analyze_item_outcome:
  assumes "optional_trim (name item) = Inr t"
  shows "outcome (analyze_item RegExp exclusionRules mappingRules (res, console) item) =
     Inr (step_results RegExp exclusionRules mappingRules res item t)"
proof (cases t)
  case None
  with assms show ?thesis by (simp add: analyze_item_def outcome_def step_results_def)
next
  case (Some nm)
  obtain x w where x: "shouldExclude RegExp exclusionRules nm = (x, w)" by force
  obtain y w' where y: "findMapping RegExp mappingRules nm = (y, w')" by force
  show ?thesis
  proof (cases x)
    case (Excluded r)
    with assms Some x show ?thesis
      by (simp add: analyze_item_def outcome_def step_results_def bucket_of_def)
  next
    case NotExcluded
    show ?thesis
    proof (cases y)
      case None
      with assms Some x y NotExcluded show ?thesis
        by (simp add: analyze_item_def outcome_def step_results_def bucket_of_def record_of_def)
    next
      case (Some m)
      with assms \<open>t = Some nm\<close> x y NotExcluded show ?thesis
        by (simp add: analyze_item_def outcome_def step_results_def bucket_of_def record_of_def seeded_def
            push_entry_fun Let_def)
    qed
  qed
qed

lemma analyze_loop_outcome_cong:
  assumes "\<And>nm. bucket_of RegExp ex mp nm = bucket_of RegExp' ex' mp' nm"
  shows "outcome (analyze_loop RegExp ex mp (res, c) items) =
         outcome (analyze_loop RegExp' ex' mp' (res, c') items)"
proof (induction items arbitrary: res c c')
  case Nil
  show ?case by (simp add: outcome_def)
next
  case (Cons item items)
  show ?case
  proof (cases "optional_trim (name item)")
    case (Inl e)
    then show ?thesis by (simp add: analyze_item_type_error outcome_def)
  next
    case (Inr t)
    have eq: "outcome (analyze_item RegExp ex mp (res, c) item) =
          outcome (analyze_item RegExp' ex' mp' (res, c') item)"
      by (simp add: analyze_item_outcome [OF Inr] assms step_results_def cong: option.case_cong)
    obtain r1 c1 where a: "analyze_item RegExp ex mp (res, c) item = Inr (r1, c1)"
      using analyze_item_outcome [OF Inr, of RegExp ex mp res c]
      by (auto simp: outcome_def split: sum.splits)
    obtain r2 c2 where b: "analyze_item RegExp' ex' mp' (res, c') item = Inr (r2, c2)"
      using analyze_item_outcome [OF Inr, of RegExp' ex' mp' res c']
      by (auto simp: outcome_def split: sum.splits)
    from eq a b have "r1 = r2" by (simp add: outcome_def)
    with a b Cons.IH [of r2 c1 c2] show ?thesis by simp
  qed
qed

lemma analyze_loop_total:
  "\<forall>item\<in>set items. has_text_name item \<Longrightarrow>
   \<exists>res' console'. analyze_loop RegExp ex mp st items = Inr (res', console')"
proof (induction items arbitrary: st)
  case Nil
  then show ?case by (cases st) simp
next
  case (Cons item items)
  from Cons.prems have "has_text_name item" by simp
  then obtain t where t: "optional_trim (name item) = Inr t"
    by (auto simp: has_text_name_def optional_trim_def split: jsval.splits)
  obtain res console where st: "st = (res, console)" by force
  obtain r1 c1 where a: "analyze_item RegExp ex mp st item = Inr (r1, c1)"
    using analyze_item_outcome [OF t, of RegExp ex mp res console]
    by (auto simp: outcome_def st split: sum.splits)
  from Cons.prems have "\<forall>item\<in>set items. has_text_name item" by simp
  from Cons.IH [OF this, of "(r1, c1)"] a show ?case by simp
qed

section \<open>Rules whose regular expression is invalid\<close>

lemma invalid_exclusion_regex_no_match:
  "invalid_exclusion_regex RegExp r \<Longrightarrow>
   exclusion_matches RegExp r nm = (False, [''Invalid regex pattern: '' @ pattern_value r])"
  by (simp add: invalid_exclusion_regex_def exclusion_matches_def)

lemma invalid_mapping_regex_no_match:
  "invalid_mapping_regex RegExp r \<Longrightarrow>
   mapping_matches RegExp r nm = (False, [''Invalid regex pattern: '' @ original_pattern r])"
  by (simp add: invalid_mapping_regex_def mapping_matches_def)

lemma shouldExclude_without_invalid:
  "fst (shouldExclude RegExp (filter (\<lambda>r. \<not> invalid_exclusion_regex RegExp r) ex) nm) =
   fst (shouldExclude RegExp ex nm)"
  unfolding shouldExclude_def
  by (rule exclusion_scan_filter_fst) (simp add: invalid_exclusion_regex_no_match)

lemma findMapping_without_invalid:
  "fst (findMapping RegExp (filter (\<lambda>r. \<not> invalid_mapping_regex RegExp r) mp) nm) =
   fst (findMapping RegExp mp nm)"
  unfolding findMapping_def
  by (rule mapping_scan_filter_fst) (simp add: invalid_mapping_regex_no_match)

text \<open>
  Claim C5. A rule of type \<^verbatim>\<open>regex\<close> whose pattern does not compile does not match, whatever
  the name, and writes the warning; the scan goes on with the rules after it, and returns the
  rule it would return without the invalid ones. An analysis run is not aborted by such
  rules: its outcome (the error or the three result buckets) is the outcome without them, and
  it returns results whenever every entry's name is a string or missing.
\<close>

theorem invalid_regex_fails_closed:
  "(invalid_exclusion_regex RegExp r \<longrightarrow>
      exclusion_matches RegExp r nm = (False, [''Invalid regex pattern: '' @ pattern_value r]) \<and>
      shouldExclude RegExp (r # exclusionRules) nm =
        (fst (shouldExclude RegExp exclusionRules nm),
         (''Invalid regex pattern: '' @ pattern_value r) # snd (shouldExclude RegExp exclusionRules nm))) \<and>
   (invalid_mapping_regex RegExp m \<longrightarrow>
      mapping_matches RegExp m nm = (False, [''Invalid regex pattern: '' @ original_pattern m]) \<and>
      findMapping RegExp (m # mappingRules) nm =
        (fst (findMapping RegExp mappingRules nm),
         (''Invalid regex pattern: '' @ original_pattern m) # snd (findMapping RegExp mappingRules nm))) \<and>
   fst (shouldExclude RegExp exclusionRules nm) =
     fst (shouldExclude RegExp (filter (\<lambda>r. \<not> invalid_exclusion_regex RegExp r) exclusionRules) nm) \<and>
   fst (findMapping RegExp mappingRules nm) =
     fst (findMapping RegExp (filter (\<lambda>r. \<not> invalid_mapping_regex RegExp r) mappingRules) nm) \<and>
   outcome (analyze RegExp (Some (exclusionRules, mappingRules)) softwareList) =
     outcome (analyze RegExp
       (Some (filter (\<lambda>r. \<not> invalid_exclusion_regex RegExp r) exclusionRules,
              filter (\<lambda>r. \<not> invalid_mapping_regex RegExp r) mappingRules)) softwareList) \<and>
   ((\<forall>item\<in>set softwareList. has_text_name item) \<longrightarrow>
      (\<exists>res console.
         analyze RegExp (Some (exclusionRules, mappingRules)) softwareList = Inr (res, console)))"
proof -
  have a: "invalid_exclusion_regex RegExp r \<longrightarrow>
      exclusion_matches RegExp r nm = (False, [''Invalid regex pattern: '' @ pattern_value r]) \<and>
      shouldExclude RegExp (r # exclusionRules) nm =
        (fst (shouldExclude RegExp exclusionRules nm),
         (''Invalid regex pattern: '' @ pattern_value r) # snd (shouldExclude RegExp exclusionRules nm))"
    by (simp add: invalid_exclusion_regex_no_match shouldExclude_def split: prod.splits)
  have b: "invalid_mapping_regex RegExp m \<longrightarrow>
      mapping_matches RegExp m nm = (False, [''Invalid regex pattern: '' @ original_pattern m]) \<and>
      findMapping RegExp (m # mappingRules) nm =
        (fst (findMapping RegExp mappingRules nm),
         (''Invalid regex pattern: '' @ original_pattern m) # snd (findMapping RegExp mappingRules nm))"
    by (simp add: invalid_mapping_regex_no_match findMapping_def split: prod.splits)
  have c: "outcome (analyze RegExp (Some (exclusionRules, mappingRules)) softwareList) =
     outcome (analyze RegExp
       (Some (filter (\<lambda>r. \<not> invalid_exclusion_regex RegExp r) exclusionRules,
              filter (\<lambda>r. \<not> invalid_mapping_regex RegExp r) mappingRules)) softwareList)"
    unfolding analyze_def
    by (simp, rule analyze_loop_outcome_cong)
       (simp add: bucket_of_def shouldExclude_without_invalid findMapping_without_invalid
          cong: exclusion_check.case_cong)
  have d: "(\<forall>item\<in>set softwareList. has_text_name item) \<longrightarrow>
      (\<exists>res console.
         analyze RegExp (Some (exclusionRules, mappingRules)) softwareList = Inr (res, console))"
    by (simp add: analyze_def analyze_loop_total)
  from a b c d show ?thesis
    by (simp only: shouldExclude_without_invalid findMapping_without_invalid simp_thms)
qed

theorem invalid_regex_fails_closed_witness:
  "exclusion_matches literal_engine broken_rule ''Patch (KB1)'' =
     (False, [''Invalid regex pattern: (''])  \<and>
   shouldExclude literal_engine [broken_rule, kb_rule] ''Patch (KB1)'' =
     (Excluded kb_rule, [''Invalid regex pattern: ('']) \<and>
   (\<exists>res console.
      analyze literal_engine (Some ([broken_rule, kb_rule], []))
        [\<lparr>name = JStr ''Patch (KB1)'', publisher = JStr [], deviceCount = JNum 1\<rparr>] =
      Inr (res, console))"
proof -
  have h1: "invalid_exclusion_regex literal_engine broken_rule" by code_simp
  have h2: "shouldExclude literal_engine [kb_rule] ''Patch (KB1)'' = (Excluded kb_rule, [])"
    by code_simp
  have h3: "pattern_value broken_rule = ''(''" by (simp add: broken_rule_def)
  have h4: "has_text_name \<lparr>name = JStr ''Patch (KB1)'', publisher = JStr [], deviceCount = JNum 1\<rparr>"
    by (simp add: has_text_name_def)
  note t = invalid_regex_fails_closed [of literal_engine broken_rule "''Patch (KB1)''" "[kb_rule]"
         ams_client_rule "[]"
         "[\<lparr>name = JStr ''Patch (KB1)'', publisher = JStr [], deviceCount = JNum 1\<rparr>]"]
  have a: "exclusion_matches literal_engine broken_rule ''Patch (KB1)'' =
     (False, [''Invalid regex pattern: (''])  \<and>
   shouldExclude literal_engine [broken_rule, kb_rule] ''Patch (KB1)'' =
     (Excluded kb_rule, [''Invalid regex pattern: (''])"
    using t [THEN conjunct1] h1 h2 h3 by simp
  have b: "\<exists>res console.
      analyze literal_engine (Some ([broken_rule, kb_rule], []))
        [\<lparr>name = JStr ''Patch (KB1)'', publisher = JStr [], deviceCount = JNum 1\<rparr>] =
      Inr (res, console)"
    using invalid_regex_fails_closed [of literal_engine broken_rule "''Patch (KB1)''"
         "[broken_rule, kb_rule]" ams_client_rule "[]"
         "[\<lparr>name = JStr ''Patch (KB1)'', publisher = JStr [], deviceCount = JNum 1\<rparr>]",
         THEN conjunct2, THEN conjunct2, THEN conjunct2, THEN conjunct2, THEN conjunct2] h4
    by simp
  from a b show ?thesis by simp
qed

section \<open>The three buckets partition the entries\<close>

lemma analyze_item_Inr:
  assumes "analyze_item RegExp ex mp (res, c) item = Inr (res', c')"
  shows "\<exists>t. optional_trim (name item) = Inr t \<and> res' = step_results RegExp ex mp res item t"
proof (cases "optional_trim (name item)")
  case (Inl e)
  with assms show ?thesis by (simp add: analyze_item_type_error)
next
  case (Inr t)
  from analyze_item_outcome [OF Inr, of RegExp ex mp res c] assms
  have "res' = step_results RegExp ex mp res item t" by (simp add: outcome_def)
  with Inr show ?thesis by simp
qed

lemma map_fst_map_modify: "map fst (map_modify m k f) = map fst m"
  by (induction m) (auto simp: map_modify_def)

lemma map_has_iff: "map_has m k = (k \<in> set (map fst m))"
  by (simp add: map_has_def map_of_eq_None_iff)

lemma contributors_Cons: "contributors (p # m) = originalEntries (snd p) @ contributors m"
  by (simp add: contributors_def map_values_def)

lemma map_modify_Cons:
  "map_modify (p # m) k f = (if fst p = k then (fst p, f (snd p)) else p) # map_modify m k f"
  by (cases p) (simp add: map_modify_def)

lemma map_modify_absent: "k \<notin> set (map fst m) \<Longrightarrow> map_modify m k f = m"
  by (induction m) (auto simp: map_modify_def)

lemma originalEntries_push_entry: "originalEntries (push_entry e a) = originalEntries a @ [e]"
  by (simp add: push_entry_def)

lemma contributors_modify:
  "distinct (map fst m) \<Longrightarrow> k \<in> set (map fst m) \<Longrightarrow>
   mset (contributors (map_modify m k (push_entry e))) = mset (contributors m) + {#e#}"
proof (induction m)
  case Nil
  then show ?case by simp
next
  case (Cons p m)
  show ?case
  proof (cases "fst p = k")
    case True
    with Cons.prems have "k \<notin> set (map fst m)" by auto
    then have "map_modify m k (push_entry e) = m" by (rule map_modify_absent)
    with True show ?thesis
      by (simp add: contributors_Cons map_modify_Cons originalEntries_push_entry)
  next
    case False
    with Cons.prems have "distinct (map fst m)" "k \<in> set (map fst m)" by auto
    from Cons.IH [OF this] False show ?thesis
      by (simp add: contributors_Cons map_modify_Cons)
  qed
qed

lemma contributors_snoc_seeded:
  "contributors (m @ [(k, seeded r)]) = contributors m"
  by (simp add: contributors_def map_values_def seeded_def)

lemma step_results_included:
  assumes "distinct (map fst (included res))"
  shows "distinct (map fst (included (step_results RegExp ex mp res item t))) \<and>
     mset (included_names (step_results RegExp ex mp res item t)) =
       mset (included_names res) +
       mset (filter (goes_included RegExp ex mp) (case t of None \<Rightarrow> [] | Some nm \<Rightarrow> [nm]))"
proof (cases t)
  case None
  with assms show ?thesis by (simp add: step_results_def)
next
  case (Some nm)
  show ?thesis
  proof (cases "bucket_of RegExp ex mp nm")
    case (IsMapped m)
    let ?k = "canonical_name m"
    let ?inc = "if \<not> map_has (included res) ?k
                then map_set (included res) ?k (seeded m) else included res"
    have d: "distinct (map fst ?inc)" and k: "?k \<in> set (map fst ?inc)"
      and c: "contributors ?inc = contributors (included res)"
      using assms by (auto simp: map_set_def map_has_iff contributors_snoc_seeded)
    from contributors_modify [OF d k, of "record_of nm item"] c
    have "mset (contributors (map_modify ?inc ?k (push_entry (record_of nm item)))) =
        mset (contributors (included res)) + {#record_of nm item#}" by simp
    from arg_cong [OF this, of "image_mset entry_text"]
    have "mset (map entry_text (contributors (map_modify ?inc ?k (push_entry (record_of nm item))))) =
        mset (map entry_text (contributors (included res))) + {#nm#}"
      by (simp add: record_of_def entry_text_def)
    moreover have "included (step_results RegExp ex mp res item t) =
        map_modify ?inc ?k (push_entry (record_of nm item))"
      using Some IsMapped by (simp add: step_results_def)
    moreover have "goes_included RegExp ex mp nm"
      using IsMapped by (simp add: goes_included_def)
    ultimately show ?thesis using d Some
      by (simp add: included_names_def map_fst_map_modify)
  qed (use assms Some in \<open>simp_all add: step_results_def included_names_def goes_included_def\<close>)
qed

lemma step_results_excluded:
  "excluded_names (step_results RegExp ex mp res item t) =
     excluded_names res @
     filter (goes_excluded RegExp ex mp) (case t of None \<Rightarrow> [] | Some nm \<Rightarrow> [nm])"
  by (simp add: step_results_def excluded_names_def goes_excluded_def
      split: option.splits bucket.splits)

lemma step_results_unmapped:
  "unmapped_names (step_results RegExp ex mp res item t) =
     unmapped_names res @
     filter (goes_unmapped RegExp ex mp) (case t of None \<Rightarrow> [] | Some nm \<Rightarrow> [nm])"
  by (simp add: step_results_def unmapped_names_def goes_unmapped_def record_of_def entry_text_def
      split: option.splits bucket.splits)

lemma goes_empty:
  "\<not> goes_excluded RegExp ex mp []" "\<not> goes_included RegExp ex mp []"
  "\<not> goes_unmapped RegExp ex mp []"
  by (simp_all add: goes_excluded_def goes_included_def goes_unmapped_def bucket_of_def)

lemma filter_valid_names_Cons:
  assumes "optional_trim (name item) = Inr t" and "\<not> P []"
  shows "filter P (valid_names (item # items)) =
         filter P (case t of None \<Rightarrow> [] | Some nm \<Rightarrow> [nm]) @ filter P (valid_names items)"
  using assms by (auto simp: valid_names_def split: option.splits)

lemma analyze_loop_buckets:
  assumes "analyze_loop RegExp ex mp (res, c) items = Inr (res', c')"
    and "distinct (map fst (included res))"
  shows "excluded_names res' =
           excluded_names res @ filter (goes_excluded RegExp ex mp) (valid_names items) \<and>
         unmapped_names res' =
           unmapped_names res @ filter (goes_unmapped RegExp ex mp) (valid_names items) \<and>
         mset (included_names res') =
           mset (included_names res) + mset (filter (goes_included RegExp ex mp) (valid_names items)) \<and>
         distinct (map fst (included res'))"
  using assms
proof (induction items arbitrary: res c)
  case Nil
  then show ?case by (simp add: valid_names_def)
next
  case (Cons item items)
  from Cons.prems(1) obtain r1 c1 where
    a: "analyze_item RegExp ex mp (res, c) item = Inr (r1, c1)" and
    b: "analyze_loop RegExp ex mp (r1, c1) items = Inr (res', c')"
    by (auto split: sum.splits)
  from analyze_item_Inr [OF a] obtain t where
    t: "optional_trim (name item) = Inr t" and r1: "r1 = step_results RegExp ex mp res item t"
    by blast
  from step_results_included [OF Cons.prems(2), of RegExp ex mp item t] r1
  have d: "distinct (map fst (included r1))" and
    i: "mset (included_names r1) = mset (included_names res) +
       mset (filter (goes_included RegExp ex mp) (case t of None \<Rightarrow> [] | Some nm \<Rightarrow> [nm]))"
    by simp_all
  from Cons.IH [OF b d] i show ?case
    by (simp add: r1 step_results_excluded step_results_unmapped
        filter_valid_names_Cons [OF t] goes_empty)
qed

lemma valid_names_nonempty: "nm \<in> set (valid_names items) \<Longrightarrow> nm \<noteq> []"
  by (auto simp: valid_names_def split: sum.splits option.splits if_splits)

lemma goes_exactly_one:
  "nm \<noteq> [] \<Longrightarrow>
   (goes_excluded RegExp ex mp nm \<and> \<not> goes_included RegExp ex mp nm \<and> \<not> goes_unmapped RegExp ex mp nm) \<or>
   (\<not> goes_excluded RegExp ex mp nm \<and> goes_included RegExp ex mp nm \<and> \<not> goes_unmapped RegExp ex mp nm) \<or>
   (\<not> goes_excluded RegExp ex mp nm \<and> \<not> goes_included RegExp ex mp nm \<and> goes_unmapped RegExp ex mp nm)"
  by (simp add: goes_excluded_def goes_included_def goes_unmapped_def bucket_of_def
      split: exclusion_check.splits option.splits)

lemma mset_three_filters:
  "\<forall>x\<in>set xs. (P x \<and> \<not> Q x \<and> \<not> R x) \<or> (\<not> P x \<and> Q x \<and> \<not> R x) \<or> (\<not> P x \<and> \<not> Q x \<and> R x) \<Longrightarrow>
   mset (filter P xs) + mset (filter Q xs) + mset (filter R xs) = mset xs"
  by (induction xs) auto

text \<open>
  Claim C1, as amended. When every entry's name is a string or is missing, \<^verbatim>\<open>analyze\<close>
  returns, and the names in its three buckets (the excluded records, the entries kept under
  the aggregates, the unmapped entries) are together exactly the trimmed non-empty names of
  the input, each as often as it occurs there, with no name in two buckets: the excluded
  bucket holds the names that an exclusion rule matches, the aggregates those that a mapping
  rule matches instead, the unmapped bucket the others. An entry whose name is missing or
  blank is not among the trimmed non-empty names and so is in no bucket.
\<close>

theorem analyze_partitions_entries:
  assumes "\<forall>item\<in>set softwareList. has_text_name item"
  shows "\<exists>res console.
     analyze RegExp (Some (exclusionRules, mappingRules)) softwareList = Inr (res, console) \<and>
     mset (excluded_names res) + mset (included_names res) + mset (unmapped_names res) =
       mset (valid_names softwareList) \<and>
     length (excluded res) + length (contributors (included res)) + length (unmapped res) =
       length (valid_names softwareList) \<and>
     [] \<notin> set (excluded_names res) \<union> set (included_names res) \<union> set (unmapped_names res) \<and>
     set (excluded_names res) \<inter> set (included_names res) = {} \<and>
     set (excluded_names res) \<inter> set (unmapped_names res) = {} \<and>
     set (included_names res) \<inter> set (unmapped_names res) = {} \<and>
     excluded_names res =
       filter (goes_excluded RegExp exclusionRules mappingRules) (valid_names softwareList) \<and>
     mset (included_names res) =
       mset (filter (goes_included RegExp exclusionRules mappingRules) (valid_names softwareList)) \<and>
     unmapped_names res =
       filter (goes_unmapped RegExp exclusionRules mappingRules) (valid_names softwareList)"
proof -
  let ?E = "goes_excluded RegExp exclusionRules mappingRules"
  let ?I = "goes_included RegExp exclusionRules mappingRules"
  let ?U = "goes_unmapped RegExp exclusionRules mappingRules"
  let ?v = "valid_names softwareList"
  from analyze_loop_total [OF assms, of RegExp exclusionRules mappingRules "(empty_results, [])"]
  obtain res console where
    r: "analyze_loop RegExp exclusionRules mappingRules (empty_results, []) softwareList =
          Inr (res, console)" by blast
  from analyze_loop_buckets [OF r]
  have e: "excluded_names res = filter ?E ?v" and u: "unmapped_names res = filter ?U ?v"
    and i: "mset (included_names res) = mset (filter ?I ?v)"
    by (simp_all add: empty_results_def excluded_names_def unmapped_names_def included_names_def
        contributors_def map_values_def)
  have one: "\<forall>x\<in>set ?v. (?E x \<and> \<not> ?I x \<and> \<not> ?U x) \<or> (\<not> ?E x \<and> ?I x \<and> \<not> ?U x) \<or>
      (\<not> ?E x \<and> \<not> ?I x \<and> ?U x)"
    using valid_names_nonempty goes_exactly_one by blast
  have si: "set (included_names res) = set (filter ?I ?v)"
    using i by (metis set_mset_mset)
  have p: "mset (excluded_names res) + mset (included_names res) + mset (unmapped_names res) = mset ?v"
    using mset_three_filters [OF one] e u i by simp
  have d1: "set (excluded_names res) \<inter> set (included_names res) = {}"
    using one by (auto simp: e si)
  have d2: "set (excluded_names res) \<inter> set (unmapped_names res) = {}"
    using one by (auto simp: e u)
  have d3: "set (included_names res) \<inter> set (unmapped_names res) = {}"
    using one by (auto simp: si u)
  have "size (mset (excluded_names res) + mset (included_names res) + mset (unmapped_names res)) =
      size (mset ?v)"
    by (simp only: p)
  then have l: "length (excluded res) + length (contributors (included res)) + length (unmapped res) =
      length ?v"
    by (simp add: excluded_names_def included_names_def unmapped_names_def)
  have "set_mset (mset (excluded_names res) + mset (included_names res) + mset (unmapped_names res)) =
      set ?v"
    by (simp only: p set_mset_mset)
  then have n: "[] \<notin> set (excluded_names res) \<union> set (included_names res) \<union> set (unmapped_names res)"
    using valid_names_nonempty [of "[]" softwareList] by auto
  from r p l n d1 d2 d3 e i u show ?thesis
    by (simp add: analyze_def)
qed

text \<open>
  The sentence of the specification read for every list of entries fails on a list with an
  entry whose name is a number: \<^verbatim>\<open>item.name?.trim()\<close> throws a \<^verbatim>\<open>TypeError\<close>, the analysis
  returns no buckets, and the entry before it, whose trimmed name is not empty, is in none.
\<close>

theorem numeric_name_counterexample:
  "analyze literal_engine (Some sample_rules) numbered_inventory = Inl TypeError \<and>
   valid_names numbered_inventory = [''TotallyUnknownApp''] \<and>
   \<not> list_all has_text_name numbered_inventory"
  by code_simp

theorem analyze_partitions_entries_witness:
  "\<exists>res console.
     analyze literal_engine (Some sample_rules) sample_inventory = Inr (res, console) \<and>
     excluded_names res = [''Security Update for Microsoft Office (KB123)''] \<and>
     mset (included_names res) = {#''AMS TransactNOW'', ''AMS360 Client Rev 9''#} \<and>
     unmapped_names res = [''TotallyUnknownApp'']"
proof -
  have h: "\<forall>item\<in>set sample_inventory. has_text_name item"
    by (simp add: sample_inventory_def has_text_name_def)
  have v: "valid_names sample_inventory =
      [''Security Update for Microsoft Office (KB123)'', ''AMS TransactNOW'',
       ''AMS360 Client Rev 9'', ''TotallyUnknownApp'']"
    by code_simp
  have e: "filter (goes_excluded literal_engine (fst sample_rules) (snd sample_rules))
      [''Security Update for Microsoft Office (KB123)'', ''AMS TransactNOW'',
       ''AMS360 Client Rev 9'', ''TotallyUnknownApp''] =
      [''Security Update for Microsoft Office (KB123)'']"
    by code_simp
  have i: "filter (goes_included literal_engine (fst sample_rules) (snd sample_rules))
      [''Security Update for Microsoft Office (KB123)'', ''AMS TransactNOW'',
       ''AMS360 Client Rev 9'', ''TotallyUnknownApp''] =
      [''AMS TransactNOW'', ''AMS360 Client Rev 9'']"
    by code_simp
  have u: "filter (goes_unmapped literal_engine (fst sample_rules) (snd sample_rules))
      [''Security Update for Microsoft Office (KB123)'', ''AMS TransactNOW'',
       ''AMS360 Client Rev 9'', ''TotallyUnknownApp''] =
      [''TotallyUnknownApp'']"
    by code_simp
  note t = analyze_partitions_entries [OF h, of literal_engine "fst sample_rules" "snd sample_rules",
      unfolded v e i u]
  then obtain res console where
    a: "analyze literal_engine (Some (fst sample_rules, snd sample_rules)) sample_inventory =
          Inr (res, console)" and
    b: "excluded_names res = [''Security Update for Microsoft Office (KB123)'']" and
    c: "mset (included_names res) = mset [''AMS TransactNOW'', ''AMS360 Client Rev 9'']" and
    d: "unmapped_names res = [''TotallyUnknownApp'']"
    by blast
  from a have a': "analyze literal_engine (Some sample_rules) sample_inventory = Inr (res, console)"
    by simp
  from c have c': "mset (included_names res) = {#''AMS TransactNOW'', ''AMS360 Client Rev 9''#}"
    by simp
  from a' b c' d show ?thesis by blast
qed

section \<open>Aggregates keep the fields of their first match\<close>

lemma map_of_map_modify:
  "map_of (map_modify m k f) k' = (if k' = k then map_option f (map_of m k) else map_of m k')"
  by (induction m) (auto simp: map_modify_def)

lemma map_of_map_set_absent:
  "\<not> map_has m k \<Longrightarrow> map_of (map_set m k v) k' = (if k' = k then Some v else map_of m k')"
  by (auto simp: map_set_def map_has_def map_add_def split: option.splits)












section \<open>Counts of an aggregate\<close>

lemma foldl_add_sum_list:
  "foldl (\<lambda>sum e. sum + f e) (z::int) es = z + sum_list (map f es)"
  by (induction es arbitrary: z) simp_all

lemma totalDevices_with_counts:
  "totalDevices (with_counts item) = sum_list (map device_count_or_1 (originalEntries item))"
  by (simp add: with_counts_def foldl_add_sum_list)

lemma mset_binary_insert: "mset (binary_insert cmp xs p) = add_mset p (mset xs)"
proof -
  have "mset (take i xs @ drop i xs) = mset xs" for i
    by (simp only: append_take_drop_id)
  then have "mset (take i xs) + mset (drop i xs) = mset xs" for i
    by (simp only: mset_append)
  then show ?thesis by (simp add: binary_insert_def Let_def)
qed


lemma mset_foldl_binary_insert:
  "mset (foldl (binary_insert cmp) xs ps) = mset xs + mset ps"
  by (induction ps arbitrary: xs) (simp_all add: mset_binary_insert)

lemma mset_js_sort: "mset (js_sort cmp xs) = mset xs"
proof (cases xs)
  case Nil
  then show ?thesis by (simp add: js_sort_def)
next
  case (Cons x ys)
  show ?thesis
  proof (cases ys)
    case Nil
    with Cons show ?thesis by (simp add: js_sort_def)
  next
    case (Cons y rest)
    have "mset (take k rest @ drop k rest) = mset rest" for k
      by (simp only: append_take_drop_id)
    then have "mset (take k rest) + mset (drop k rest) = mset rest" for k
      by (simp only: mset_append)
    with Cons \<open>xs = x # ys\<close> show ?thesis
      by (simp add: js_sort_def Let_def mset_foldl_binary_insert)
  qed
qed

lemma set_js_sort: "set (js_sort cmp xs) = set xs"
proof -
  have "set_mset (mset (js_sort cmp xs)) = set_mset (mset xs)"
    by (simp only: mset_js_sort)
  then show ?thesis by simp
qed

lemma api_analyze_Inr:
  assumes "api_analyze RegExp localeCompare rules store softwareList = Inr resp"
  obtains res console dispositionMap where
    "analyze RegExp rules softwareList = Inr (res, console)"
    "response_included resp =
       js_sort (compare_names localeCompare)
         (map (with_disposition dispositionMap) (map with_counts (map_values (included res))))"
    "dispositionMap =
       create_missing store (map canonicalName (map with_counts (map_values (included res))))
         (fetch_dispositions store (map canonicalName (map with_counts (map_values (included res)))))"
    "response_unmapped resp = js_sort compare_devices (unmapped res)"
    "response_excluded resp = excluded res"
  using assms
  by (auto simp: api_analyze_def Let_def split: sum.splits prod.splits)

lemma with_disposition_counts:
  "originalEntries (with_disposition m item) = originalEntries item \<and>
   originalCount (with_disposition m item) = originalCount item \<and>
   totalDevices (with_disposition m item) = totalDevices item \<and>
   canonicalName (with_disposition m item) = canonicalName item"
  by (simp add: with_disposition_def Let_def)

text \<open>
  Claim C6, as amended. In every element of the included list of a response,
  \<^verbatim>\<open>originalCount\<close> is the length of \<^verbatim>\<open>originalEntries\<close>; and, provided that the magnitudes of
  the integers added are together at most \<open>2 ^ 53\<close>, \<^verbatim>\<open>totalDevices\<close> is the sum, over these
  entries, of \<^verbatim>\<open>parseInt(deviceCount) || 1\<close>: the integer that \<^verbatim>\<open>parseInt\<close> reads when it reads
  one other than zero, and \<open>1\<close> when it reads none (a missing count, \<^verbatim>\<open>abc\<close>) or reads zero.
\<close>

theorem included_counts:
  "originalCount (with_counts item) = length (originalEntries item) \<and>
   (exact_counts (originalEntries item) \<longrightarrow>
      totalDevices (with_counts item) = sum_list (map device_count_or_1 (originalEntries item))) \<and>
   (api_analyze RegExp localeCompare rules store softwareList = Inr resp \<longrightarrow>
      (\<forall>x\<in>set (response_included resp).
         originalCount x = length (originalEntries x) \<and>
         (exact_counts (originalEntries x) \<longrightarrow>
            totalDevices x = sum_list (map device_count_or_1 (originalEntries x))))) \<and>
   (parseInt (deviceCount e) = None \<longrightarrow> device_count_or_1 e = 1) \<and>
   (parseInt (deviceCount e) = Some 0 \<longrightarrow> device_count_or_1 e = 1) \<and>
   (parseInt (deviceCount e) = Some n \<and> n \<noteq> 0 \<and> \<bar>n\<bar> \<le> 2 ^ 53 \<longrightarrow> device_count_or_1 e = n) \<and>
   (deviceCount e = JUndefined \<or> deviceCount e = JNull \<or> deviceCount e = JStr ''abc'' \<longrightarrow>
      device_count_or_1 e = 1)"
proof -
  have a: "originalCount (with_counts item) = length (originalEntries item)"
    by (simp add: with_counts_def)
  have b: "api_analyze RegExp localeCompare rules store softwareList = Inr resp \<longrightarrow>
      (\<forall>x\<in>set (response_included resp).
         originalCount x = length (originalEntries x) \<and>
         (exact_counts (originalEntries x) \<longrightarrow>
            totalDevices x = sum_list (map device_count_or_1 (originalEntries x))))"
  proof (intro impI ballI)
    fix x
    assume r: "api_analyze RegExp localeCompare rules store softwareList = Inr resp"
      and x: "x \<in> set (response_included resp)"
    from r obtain res :: results and console :: "string list" and m where
      "response_included resp =
         js_sort (compare_names localeCompare)
           (map (with_disposition m) (map with_counts (map_values (included res))))"
      by (rule api_analyze_Inr)
    with x obtain item where "x = with_disposition m (with_counts item)"
      by (auto simp: set_js_sort)
    then show "originalCount x = length (originalEntries x) \<and>
         (exact_counts (originalEntries x) \<longrightarrow>
            totalDevices x = sum_list (map device_count_or_1 (originalEntries x)))"
      by (simp add: with_disposition_counts totalDevices_with_counts a)
         (simp add: with_counts_def)
  qed
  have c: "parseInt (JStr ''abc'') = None" by code_simp
  have d: "deviceCount e = JUndefined \<or> deviceCount e = JNull \<or> deviceCount e = JStr ''abc'' \<longrightarrow>
      device_count_or_1 e = 1"
    using c by (auto simp: device_count_or_1_def parseInt_def)
  from a b d show ?thesis
    by (simp add: totalDevices_with_counts device_count_or_1_def)
qed

text \<open>
  The sentence of the specification read literally fails on three entries filed under
  \<^verbatim>\<open>AMS360\<close> with the device counts \<^verbatim>\<open>"0"\<close>, \<^verbatim>\<open>"abc"\<close> and \<^verbatim>\<open>"12abc"\<close>: the values, with \<open>1\<close>
  for the two that are not numeric, add up to \<open>2\<close>, and the response reports \<open>14\<close>, one for
  the zero and twelve for the digits that \<^verbatim>\<open>parseInt\<close> reads at the start of \<^verbatim>\<open>12abc\<close>.
\<close>

theorem totalDevices_counterexample:
  "map (\<lambda>i. (totalDevices i, map device_count_or_1 (originalEntries i),
              sum_list (map spec_device_count (originalEntries i)),
              map spec_device_count (originalEntries i)))
     (included_of (api_analyze literal_engine code_unit_compare (Some sample_rules) empty_store
        counted_inventory)) = [(14, [1, 1, 12], 2, [0, 1, 1])]"
  by code_simp

theorem included_counts_witness:
  "totalDevices (with_counts
     \<lparr>canonicalName = ''AMS360'', agg_category = ''Industry / LOB'', deploymentType = ''Both'',
      agg_description = ''AMS360 transaction processing component'',
      originalEntries =
        [\<lparr>name = JStr ''AMS TransactNOW'', publisher = JStr ''Vertafore'', deviceCount = JStr ''0''\<rparr>,
         \<lparr>name = JStr ''AMS360 Client Rev 9'', publisher = JStr ''Vertafore'', deviceCount = JStr ''abc''\<rparr>,
         \<lparr>name = JStr ''AMS360 Client Rev 10'', publisher = JStr ''Vertafore'', deviceCount = JNum 7\<rparr>]\<rparr>) = 9 \<and>
   device_count_or_1 \<lparr>name = JStr ''AMS360 Client Rev 9'', publisher = JStr ''Vertafore'',
     deviceCount = JStr ''abc''\<rparr> = 1 \<and>
   device_count_or_1 \<lparr>name = JStr ''AMS360 Client Rev 9'', publisher = JStr ''Vertafore'',
     deviceCount = JUndefined\<rparr> = 1 \<and>
   map canonicalName
     (included_of (api_analyze literal_engine code_unit_compare (Some sample_rules) empty_store
        counted_inventory)) = [''AMS360''] \<and>
   list_all (\<lambda>x. originalCount x = 3 \<and>
                 totalDevices x = sum_list (map device_count_or_1 (originalEntries x)))
     (included_of (api_analyze literal_engine code_unit_compare (Some sample_rules) empty_store
        counted_inventory))"
proof -
  let ?e1 = "\<lparr>name = JStr ''AMS TransactNOW'', publisher = JStr ''Vertafore'', deviceCount = JStr ''0''\<rparr>"
  let ?e2 = "\<lparr>name = JStr ''AMS360 Client Rev 9'', publisher = JStr ''Vertafore'', deviceCount = JStr ''abc''\<rparr>"
  let ?e3 = "\<lparr>name = JStr ''AMS360 Client Rev 10'', publisher = JStr ''Vertafore'', deviceCount = JNum 7\<rparr>"
  let ?e4 = "\<lparr>name = JStr ''AMS360 Client Rev 9'', publisher = JStr ''Vertafore'', deviceCount = JUndefined\<rparr>"
  let ?a = "\<lparr>canonicalName = ''AMS360'', agg_category = ''Industry / LOB'', deploymentType = ''Both'',
      agg_description = ''AMS360 transaction processing component'',
      originalEntries = [?e1, ?e2, ?e3]\<rparr>"
  let ?R = "api_analyze literal_engine code_unit_compare (Some sample_rules) empty_store
        counted_inventory"
  have p1: "parseInt (deviceCount ?e1) = Some 0" by code_simp
  have p2: "parseInt (deviceCount ?e2) = None" by code_simp
  have p3: "parseInt (deviceCount ?e3) = Some 7 \<and> (7::int) \<noteq> 0 \<and> \<bar>7::int\<bar> \<le> 2 ^ 53" by code_simp
  have p4: "deviceCount ?e4 = JUndefined \<or> deviceCount ?e4 = JNull \<or> deviceCount ?e4 = JStr ''abc''"
    by simp
  have x: "exact_counts (originalEntries ?a)" by code_simp
  have d1: "device_count_or_1 ?e1 = 1"
    using included_counts [of ?a _ _ _ _ _ _ ?e1 7] p1 by blast
  have d2: "device_count_or_1 ?e2 = 1"
    using included_counts [of ?a _ _ _ _ _ _ ?e2 7] p2 by blast
  have d3: "device_count_or_1 ?e3 = 7"
    using included_counts [of ?a _ _ _ _ _ _ ?e3 7] p3 by blast
  have d4: "device_count_or_1 ?e4 = 1"
    using included_counts [of ?a _ _ _ _ _ _ ?e4 7] p4 by blast
  have t: "totalDevices (with_counts ?a) = sum_list (map device_count_or_1 (originalEntries ?a))"
    using included_counts [of ?a _ _ _ _ _ _ ?e1 7] x by blast
  have n: "map canonicalName (included_of ?R) = [''AMS360'']" by code_simp
  have l: "list_all (\<lambda>x. length (originalEntries x) = 3 \<and> exact_counts (originalEntries x))
      (included_of ?R)" by code_simp
  from n obtain resp where r: "?R = Inr resp"
    by (cases ?R) (simp_all add: included_of_def)
  have "\<forall>x\<in>set (response_included resp).
         originalCount x = length (originalEntries x) \<and>
         (exact_counts (originalEntries x) \<longrightarrow>
            totalDevices x = sum_list (map device_count_or_1 (originalEntries x)))"
    using included_counts [of ?a literal_engine code_unit_compare "Some sample_rules" empty_store
        counted_inventory resp ?e1 7] r by blast
  with l r have "list_all (\<lambda>x. originalCount x = 3 \<and>
                 totalDevices x = sum_list (map device_count_or_1 (originalEntries x)))
     (included_of ?R)"
    by (simp add: included_of_def list_all_iff)
  with t d1 d2 d3 d4 n show ?thesis by simp
qed

text \<open>
  Claim C10. An entry whose device count is read by \<^verbatim>\<open>parseInt\<close> as \<open>0\<close> counts as one
  device: adding it to an aggregate raises \<^verbatim>\<open>totalDevices\<close> by \<open>1\<close>.
\<close>

theorem zero_device_count_contributes_one:
  assumes "parseInt (deviceCount e) = Some 0"
  shows "device_count_or_1 e = 1 \<and>
         totalDevices (with_counts (push_entry e a)) = totalDevices (with_counts a) + 1"
  using assms
  by (simp add: totalDevices_with_counts originalEntries_push_entry device_count_or_1_def)

theorem zero_device_count_contributes_one_witness:
  "device_count_or_1 \<lparr>name = JStr ''AMS TransactNOW'', publisher = JStr ''Vertafore'',
     deviceCount = JStr ''0''\<rparr> = 1 \<and>
   totalDevices (with_counts (push_entry
     \<lparr>name = JStr ''AMS TransactNOW'', publisher = JStr ''Vertafore'', deviceCount = JStr ''0''\<rparr>
     (seeded ams_transact_rule))) = 1"
proof -
  let ?e = "\<lparr>name = JStr ''AMS TransactNOW'', publisher = JStr ''Vertafore'', deviceCount = JStr ''0''\<rparr>"
  have p: "parseInt (deviceCount ?e) = Some 0" by code_simp
  have z: "totalDevices (with_counts (seeded ams_transact_rule)) = 0"
    by (simp add: with_counts_def seeded_def)
  from zero_device_count_contributes_one [OF p, of "seeded ams_transact_rule"] z
  show ?thesis by simp
qed

section \<open>Disposition enrichment\<close>

lemma map_of_map_set:
  "map_of (map_set m k v) k' = (if k' = k then Some v else map_of m k')"
  by (cases "map_has m k")
     (auto simp: map_of_map_set_absent, auto simp: map_set_def map_of_map_modify map_has_def)

lemma map_of_fold_set:
  "map_of (foldl (\<lambda>m row. map_set m (key row) (val row)) m0 rows) k = Some d \<Longrightarrow>
   map_of m0 k \<noteq> None \<or> k \<in> key ` set rows"
  by (induction rows arbitrary: m0) (fastforce simp: map_of_map_set split: if_splits)+

lemma fetch_dispositions_Some:
  "map_of (fetch_dispositions store names) k = Some d \<Longrightarrow>
   \<not> select_fails store \<and> (\<exists>row\<in>set (store_rows store). row_canonical_name row = k)"
  by (auto simp: fetch_dispositions_def split: if_splits dest!: map_of_fold_set)

lemma map_of_fold_pending:
  "map_of (foldl (\<lambda>m nm. if f nm then m else map_set m nm p) m0 xs) k =
     (if k \<in> set xs \<and> \<not> f k then Some p else map_of m0 k)"
  by (induction xs arbitrary: m0) (auto simp: map_of_map_set)

lemma map_of_create_missing:
  "map_of (create_missing store names m) k =
     (case map_of m k of
        Some d \<Rightarrow> Some d
      | None \<Rightarrow> if k \<in> set names \<and> \<not> insert_fails store k then Some pending_info else None)"
  by (auto simp: create_missing_def map_of_fold_pending map_has_def split: option.splits)

lemma or_default_nonempty: "d \<noteq> [] \<Longrightarrow> or_default x d \<noteq> []"
  by (simp add: or_default_def split: option.splits)

lemma disposition_nonempty: "disposition (with_disposition m item) \<noteq> []"
  by (simp add: with_disposition_def Let_def or_default_nonempty)

lemma with_disposition_pending:
  assumes "map_of m (canonicalName item) = None \<or> map_of m (canonicalName item) = Some pending_info"
  shows "disposition (with_disposition m item) = ''pending'' \<and>
         replacementId (with_disposition m item) = None \<and>
         replacementName (with_disposition m item) = None \<and>
         dispositionNotes (with_disposition m item) = None"
  using assms
  by (auto simp: with_disposition_def Let_def map_get_def pending_info_def or_default_def
      or_null_def or_null_id_def)

lemma enrichment_unknown_name:
  assumes "select_fails store \<or> (\<forall>row\<in>set (store_rows store). row_canonical_name row \<noteq> k)"
  shows "map_of (create_missing store names (fetch_dispositions store names)) k = None \<or>
         map_of (create_missing store names (fetch_dispositions store names)) k = Some pending_info"
proof -
  have "map_of (fetch_dispositions store names) k = None"
    using assms fetch_dispositions_Some [of store names k] by (cases "map_of (fetch_dispositions store names) k") auto
  then show ?thesis by (simp add: map_of_create_missing)
qed

text \<open>
  Claim C7. Whenever the analysis itself returns, the route returns a response, whatever the
  state of the disposition store, and its included list has the aggregates of the analysis,
  each with a disposition that is not empty. An aggregate whose canonical name has no row
  in the store gets the disposition \<^verbatim>\<open>pending\<close> and \<^verbatim>\<open>null\<close> for the replacement id, the
  replacement name and the notes, whether or not its row could be inserted; and when the
  \<^verbatim>\<open>SELECT\<close> fails, every aggregate does.
\<close>

theorem enrichment_defaults_to_pending:
  assumes "analyze RegExp rules softwareList = Inr (res, console)"
  shows "\<exists>resp. api_analyze RegExp localeCompare rules store softwareList = Inr resp \<and>
     mset (map canonicalName (response_included resp)) =
       mset (map canonicalName (map_values (included res))) \<and>
     (\<forall>x\<in>set (response_included resp).
        disposition x \<noteq> [] \<and>
        ((\<forall>row\<in>set (store_rows store). row_canonical_name row \<noteq> canonicalName x) \<longrightarrow>
           disposition x = ''pending'' \<and> replacementId x = None \<and>
           replacementName x = None \<and> dispositionNotes x = None) \<and>
        (select_fails store \<longrightarrow>
           disposition x = ''pending'' \<and> replacementId x = None \<and>
           replacementName x = None \<and> dispositionNotes x = None))"
proof -
  let ?arr = "map with_counts (map_values (included res))"
  let ?names = "map canonicalName ?arr"
  let ?m = "create_missing store ?names (fetch_dispositions store ?names)"
  obtain resp where
    r: "api_analyze RegExp localeCompare rules store softwareList = Inr resp" and
    i: "response_included resp = js_sort (compare_names localeCompare) (map (with_disposition ?m) ?arr)"
    using assms by (simp add: api_analyze_def Let_def)
  have n: "mset (map canonicalName (response_included resp)) =
       mset (map canonicalName (map_values (included res)))"
  proof -
    have "mset (map canonicalName (response_included resp)) =
        image_mset canonicalName (mset (map (with_disposition ?m) ?arr))"
      by (simp add: i mset_js_sort)
    also have "\<dots> = mset (map canonicalName (map_values (included res)))"
      by (simp add: image_mset.compositionality comp_def with_disposition_counts with_counts_def
          flip: mset_map)
    finally show ?thesis .
  qed
  have "disposition x \<noteq> [] \<and>
        ((\<forall>row\<in>set (store_rows store). row_canonical_name row \<noteq> canonicalName x) \<longrightarrow>
           disposition x = ''pending'' \<and> replacementId x = None \<and>
           replacementName x = None \<and> dispositionNotes x = None) \<and>
        (select_fails store \<longrightarrow>
           disposition x = ''pending'' \<and> replacementId x = None \<and>
           replacementName x = None \<and> dispositionNotes x = None)"
    if "x \<in> set (response_included resp)" for x
  proof -
    from that i obtain item where x: "x = with_disposition ?m item"
      by (auto simp: set_js_sort)
    have c: "canonicalName x = canonicalName item"
      by (simp add: x with_disposition_counts)
    have p: "disposition x = ''pending'' \<and> replacementId x = None \<and>
           replacementName x = None \<and> dispositionNotes x = None"
      if h: "select_fails store \<or>
        (\<forall>row\<in>set (store_rows store). row_canonical_name row \<noteq> canonicalName item)"
    proof -
      from enrichment_unknown_name [OF h, of ?names]
      have "map_of ?m (canonicalName item) = None \<or>
            map_of ?m (canonicalName item) = Some pending_info" .
      from with_disposition_pending [OF this] show ?thesis by (simp only: x)
    qed
    have d: "disposition x \<noteq> []" by (simp only: x disposition_nonempty not_False_eq_True)
    from p d show ?thesis by (simp only: c) blast
  qed
  with r n show ?thesis by blast
qed

theorem enrichment_defaults_to_pending_witness:
  "map (\<lambda>x. (canonicalName x, disposition x, replacementId x, replacementName x, dispositionNotes x))
     (included_of (api_analyze literal_engine code_unit_compare (Some sample_rules) down_store
        sample_inventory)) =
   [(''AMS360'', ''pending'', None, None, None)]"
proof -
  let ?R = "api_analyze literal_engine code_unit_compare (Some sample_rules) down_store
        sample_inventory"
  have h: "\<forall>item\<in>set sample_inventory. has_text_name item"
    by (simp add: sample_inventory_def has_text_name_def)
  from analyze_loop_total [OF h, of literal_engine "fst sample_rules" "snd sample_rules"
      "(empty_results, [])"]
  obtain res console where
    a: "analyze literal_engine (Some sample_rules) sample_inventory = Inr (res, console)"
    by (auto simp: analyze_def case_prod_beta)
  from enrichment_defaults_to_pending [OF a, of code_unit_compare down_store]
  obtain resp where r: "?R = Inr resp" and
    p: "\<forall>x\<in>set (response_included resp).
          select_fails down_store \<longrightarrow>
            disposition x = ''pending'' \<and> replacementId x = None \<and>
            replacementName x = None \<and> dispositionNotes x = None"
    by blast
  have sf: "select_fails down_store" by (simp add: down_store_def)
  have nm: "map canonicalName (included_of ?R) = [''AMS360'']" by code_simp
  with r obtain x where x: "response_included resp = [x]" "canonicalName x = ''AMS360''"
    by (auto simp: included_of_def)
  from p sf x(1) have "disposition x = ''pending'' \<and> replacementId x = None \<and>
            replacementName x = None \<and> dispositionNotes x = None" by simp
  with r x show ?thesis by (simp add: included_of_def)
qed

section \<open>Order of the lists of a response\<close>





















text \<open>
  With a count that is not numeric the order depends on where the entries stand. Of the
  counts \<open>1\<close>, \<open>7\<close>, \<^verbatim>\<open>abc\<close>, \<open>3\<close>, \<open>9\<close> the first two form a descending run, which is
  reversed, and every later entry is put in its place by the binary search.
\<close>

lemma js_sort_unsorted_counts:
  "map deviceCount (js_sort compare_devices unsorted_counts) =
     [JNum 9, JNum 7, JNum 3, JNum 1, JStr ''abc'']"
  by code_simp



end
